theory Spec2Isabelle
  imports Complex_Main "HOL-Library.Log_Nat" "HOL-Library.Char_ord" "HOL-Library.List_Lexorder"
    "HOL-Library.Product_Lexorder" "HOL-Library.Multiset"
begin

section \<open>JavaScript numbers\<close>

text \<open>
  Every numeric field of the schemas (\<open>quantity\<close>, \<open>unitPrice\<close>, \<open>totalPrice\<close>,
  \<open>totalAmount\<close>) has the Mongoose type \<open>Number\<close>: an IEEE-754 binary64 value. A finite
  double is represented by the rational it denotes; the two zeros are one value (their sign
  is not observable through \<open>+\<close>, \<open>*\<close>, \<open>>=\<close>, \<open>||\<close>).
\<close>

datatype number = Fin rat | PosInf | NegInf | NaN

text \<open>\<open>ilog2 x\<close> is the binary exponent of a positive rational: \<open>2^k \<le> x < 2^(k+1)\<close>.\<close>

definition ilog2 :: "rat \<Rightarrow> int" where
  "ilog2 x = (case quotient_of x of (p, q) \<Rightarrow>
     (let k = int (floorlog 2 (nat p)) - int (floorlog 2 (nat q))
      in if 2 powi k \<le> x then k else k - 1))"

definition round_half_even :: "rat \<Rightarrow> int" where
  "round_half_even m = (let n = \<lfloor>m\<rfloor>; r = m - of_int n
     in if r < 1 / 2 then n else if 1 / 2 < r then n + 1 else if even n then n else n + 1)"

text \<open>
  Rounding of an exact result to binary64, round-to-nearest ties-to-even: 53 significant
  bits, least exponent \<open>-1074\<close> (subnormals), overflow to an infinity from \<open>2^1024\<close> on.
\<close>

definition to_double :: "rat \<Rightarrow> number" where
  "to_double x = (if x = 0 then Fin 0 else
     (let e = max (ilog2 \<bar>x\<bar> - 52) (- 1074);
          y = of_int (round_half_even (\<bar>x\<bar> / 2 powi e)) * 2 powi e
      in if 2 powi 1024 \<le> y then (if 0 < x then PosInf else NegInf)
         else Fin (sgn x * y)))"

text \<open>The operator \<open>+\<close> on two numbers.\<close>

fun js_add :: "number \<Rightarrow> number \<Rightarrow> number" where
  "js_add (Fin a) (Fin b) = to_double (a + b)"
| "js_add NaN _ = NaN"
| "js_add _ NaN = NaN"
| "js_add PosInf NegInf = NaN"
| "js_add NegInf PosInf = NaN"
| "js_add PosInf _ = PosInf"
| "js_add _ PosInf = PosInf"
| "js_add NegInf _ = NegInf"
| "js_add _ NegInf = NegInf"

text \<open>The operator \<open>*\<close> on two numbers.\<close>

fun js_mul :: "number \<Rightarrow> number \<Rightarrow> number" where
  "js_mul (Fin a) (Fin b) = to_double (a * b)"
| "js_mul NaN _ = NaN"
| "js_mul _ NaN = NaN"
| "js_mul (Fin a) PosInf = (if a = 0 then NaN else if 0 < a then PosInf else NegInf)"
| "js_mul (Fin a) NegInf = (if a = 0 then NaN else if 0 < a then NegInf else PosInf)"
| "js_mul PosInf (Fin b) = (if b = 0 then NaN else if 0 < b then PosInf else NegInf)"
| "js_mul NegInf (Fin b) = (if b = 0 then NaN else if 0 < b then NegInf else PosInf)"
| "js_mul PosInf PosInf = PosInf"
| "js_mul PosInf NegInf = NegInf"
| "js_mul NegInf PosInf = NegInf"
| "js_mul NegInf NegInf = PosInf"

text \<open>The comparison \<open>a <= b\<close>: false as soon as one side is \<open>NaN\<close>.\<close>

fun js_le :: "number \<Rightarrow> number \<Rightarrow> bool" where
  "js_le NaN _ = False"
| "js_le _ NaN = False"
| "js_le NegInf _ = True"
| "js_le _ PosInf = True"
| "js_le (Fin a) (Fin b) = (a \<le> b)"
| "js_le PosInf _ = False"
| "js_le _ NegInf = False"

text \<open>Truthiness of a number: \<open>0\<close> and \<open>NaN\<close> are falsy. \<open>or_default x d\<close> is \<open>x || d\<close>.\<close>

fun truthy :: "number \<Rightarrow> bool" where
  "truthy (Fin a) = (a \<noteq> 0)"
| "truthy NaN = False"
| "truthy _ = True"

definition or_default :: "number \<Rightarrow> number \<Rightarrow> number" where
  "or_default x d = (if truthy x then x else d)"

fun is_finite :: "number \<Rightarrow> bool" where
  "is_finite (Fin a) = True"
| "is_finite _ = False"

fun is_integer :: "number \<Rightarrow> bool" where
  "is_integer (Fin a) = (of_int \<lfloor>a\<rfloor> = a)"
| "is_integer _ = False"

text \<open>The sum of a list of numbers, added from left to right starting at \<open>0\<close>.\<close>

definition js_sum :: "number list \<Rightarrow> number" where
  "js_sum xs = foldl js_add (Fin 0) xs"

section \<open>Strings\<close>

definition is_space :: "char \<Rightarrow> bool" where
  "is_space c = (c \<in> set [CHR '' '', CHR 0x09, CHR 0x0A, CHR 0x0B, CHR 0x0C, CHR 0x0D])"

text \<open>\<open>String.prototype.trim\<close> on the ASCII white space.\<close>

definition trim :: "string \<Rightarrow> string" where
  "trim s = rev (dropWhile is_space (rev (dropWhile is_space s)))"

section \<open>Data model\<close>

type_synonym oid = nat
type_synonym date = int

datatype visit_status = Scheduled | InProgress | Completed | Cancelled

datatype payment_status = Pending | Partial | Paid

datatype role = Patient | Doctor | Finance

fun status_name :: "visit_status \<Rightarrow> string" where
  "status_name Scheduled = ''scheduled''"
| "status_name InProgress = ''in_progress''"
| "status_name Completed = ''completed''"
| "status_name Cancelled = ''cancelled''"

fun payment_name :: "payment_status \<Rightarrow> string" where
  "payment_name Pending = ''pending''"
| "payment_name Partial = ''partial''"
| "payment_name Paid = ''paid''"

text \<open>The reading of a payment status literal: \<open>None\<close> for every other string.\<close>

definition parse_payment :: "string \<Rightarrow> payment_status option" where
  "parse_payment s = (if s = ''pending'' then Some Pending
     else if s = ''partial'' then Some Partial
     else if s = ''paid'' then Some Paid else None)"

text \<open>Models/Treatment.js: the embedded line item of a visit.\<close>

record treatment =
  treatment_id :: oid
  name :: string
  description :: "string option"
  quantity :: number
  unitPrice :: number
  totalPrice :: number
  category :: string

text \<open>Models/Visit.js.\<close>

record visit =
  visit_id :: oid
  patient :: oid
  doctor :: oid
  status :: visit_status
  scheduledDate :: date
  startTime :: "date option"
  endTime :: "date option"
  chiefComplaint :: "string option"
  diagnosis :: "string option"
  "notes" :: "string option"
  treatments :: "treatment list"
  totalAmount :: number
  paymentStatus :: payment_status
  createdAt :: date
  updatedAt :: date

text \<open>Models/User.js, the fields the visit and finance controllers read.\<close>

record user =
  user_id :: oid
  user_name :: string
  email :: string
  phone :: "string option"
  specialization :: "string option"
  user_role :: role
  isActive :: bool

text \<open>The two collections, in the order the store yields their documents.\<close>

record store =
  Visit :: "visit list"
  User :: "user list"

datatype error =
  ValidationError | NotFoundError | InvalidTransitionError | ConflictError
  | AuthorizationError | ServerError

text \<open>
  The error kinds stand for the responses of the controllers: \<open>NotFoundError\<close> is a 404,
  \<open>AuthorizationError\<close> a 403, \<open>InvalidTransitionError\<close> the 400 that reports the visit's
  status ("Cannot ... visit with status: ..."), \<open>ConflictError\<close> the 400 "This doctor already
  has an active visit scheduled", \<open>ValidationError\<close> the 400 of a request validator or of a
  schema validator on save, \<open>ServerError\<close> a 500 from a rejected store command.
\<close>

type_synonym 'a response = "(error + 'a) \<times> store"

section \<open>Documents: change tracking, validation and the save hooks\<close>

text \<open>
  A visit loaded from the store is a Mongoose document: its fields, whether it is new, and
  the paths modified since it was loaded.
\<close>

record document =
  doc :: visit
  isNew :: bool
  modifiedPaths :: "string set"

definition load :: "visit \<Rightarrow> document" where
  "load v = \<lparr>doc = v, isNew = False, modifiedPaths = {}\<rparr>"

text \<open>An assignment marks its path modified when it changes the value.\<close>

definition assign :: "string \<Rightarrow> (visit \<Rightarrow> visit) \<Rightarrow> document \<Rightarrow> document" where
  "assign path f d = (let v = f (doc d)
     in if v = doc d then d
        else d\<lparr>doc := v, modifiedPaths := insert path (modifiedPaths d)\<rparr>)"

text \<open>\<open>treatments.push\<close> and \<open>treatments.pull\<close> mark the array modified.\<close>

definition push :: "treatment \<Rightarrow> document \<Rightarrow> document" where
  "push t d = d\<lparr>doc := (doc d)\<lparr>treatments := treatments (doc d) @ [t]\<rparr>,
     modifiedPaths := insert ''treatments'' (modifiedPaths d)\<rparr>"

definition pull :: "oid \<Rightarrow> document \<Rightarrow> document" where
  "pull tid d = d\<lparr>doc := (doc d)\<lparr>treatments :=
       filter (\<lambda>t. treatment_id t \<noteq> tid) (treatments (doc d))\<rparr>,
     modifiedPaths := insert ''treatments'' (modifiedPaths d)\<rparr>"

text \<open>visitSchema.methods.calculateTotalAmount\<close>

definition reduce_total :: "treatment list \<Rightarrow> number" where
  "reduce_total ts = foldl (\<lambda>sum t. js_add sum (or_default (totalPrice t) (Fin 0))) (Fin 0) ts"

definition calculateTotalAmount :: "document \<Rightarrow> document" where
  "calculateTotalAmount d =
     assign ''totalAmount'' (\<lambda>v. v\<lparr>totalAmount := reduce_total (treatments v)\<rparr>) d"

text \<open>treatmentSchema.pre("save")\<close>

definition treatment_pre_save :: "treatment \<Rightarrow> treatment" where
  "treatment_pre_save t = t\<lparr>totalPrice := js_mul (unitPrice t) (quantity t)\<rparr>"

text \<open>visitSchema.pre("save")\<close>

definition visit_pre_save :: "document \<Rightarrow> document" where
  "visit_pre_save d = (if ''treatments'' \<in> modifiedPaths d then calculateTotalAmount d else d)"

text \<open>The validators of the two schemas (\<open>required\<close>, \<open>min\<close>, \<open>enum\<close>, \<open>maxlength\<close>).\<close>

definition categories :: "string list" where
  "categories = [''consultation'', ''medication'', ''procedure'', ''lab_test'', ''imaging'',
     ''other'']"

definition validate_treatment :: "treatment \<Rightarrow> bool" where
  "validate_treatment t = (name t \<noteq> [] \<and> js_le (Fin 1) (quantity t) \<and>
     js_le (Fin 0) (unitPrice t) \<and> js_le (Fin 0) (totalPrice t) \<and> category t \<in> set categories)"

definition max_length :: "nat \<Rightarrow> string option \<Rightarrow> bool" where
  "max_length n s = (case s of None \<Rightarrow> True | Some x \<Rightarrow> length x \<le> n)"

definition validate_visit :: "visit \<Rightarrow> bool" where
  "validate_visit v = (max_length 1000 (chiefComplaint v) \<and> max_length 2000 (diagnosis v) \<and>
     max_length 5000 (notes v) \<and> list_all validate_treatment (treatments v) \<and>
     js_le (Fin 0) (totalAmount v))"

text \<open>The \<open>timestamps\<close> option of the visit schema.\<close>

definition timestamps :: "date \<Rightarrow> document \<Rightarrow> document" where
  "timestamps now d =
     (if isNew d then d\<lparr>doc := (doc d)\<lparr>createdAt := now, updatedAt := now\<rparr>\<rparr>
      else if modifiedPaths d \<noteq> {} then d\<lparr>doc := (doc d)\<lparr>updatedAt := now\<rparr>\<rparr>
      else d)"

primrec update_first :: "('a \<Rightarrow> bool) \<Rightarrow> ('a \<Rightarrow> 'a) \<Rightarrow> 'a list \<Rightarrow> 'a list" where
  "update_first P f [] = []"
| "update_first P f (x # xs) = (if P x then f x # xs else x # update_first P f xs)"

text \<open>
  The hooks that run before a validated document is written, in their order: the pre-save
  hook of every embedded treatment, the timestamps, the pre-save hook of the visit.
\<close>

definition pre_save :: "date \<Rightarrow> document \<Rightarrow> document" where
  "pre_save now d =
     visit_pre_save (timestamps now
       (assign ''treatments'' (\<lambda>v. v\<lparr>treatments := map treatment_pre_save (treatments v)\<rparr>) d))"

text \<open>
  \<open>document.save()\<close>: the schema validators run first and reject the save; then the hooks;
  then the document is written (inserted when new, else replacing the stored one).
\<close>

definition save :: "date \<Rightarrow> document \<Rightarrow> store \<Rightarrow> visit response" where
  "save now d s =
     (if \<not> validate_visit (doc d) then (Inl ValidationError, s)
      else
        (let v = doc (pre_save now d)
         in (Inr v, s\<lparr>Visit := (if isNew d then Visit s @ [v]
               else update_first (\<lambda>w. visit_id w = visit_id v) (\<lambda>w. v) (Visit s))\<rparr>)))"

section \<open>The visit controller\<close>

text \<open>
  Every handler takes what the request carries (\<open>now\<close> is the clock reading of
  \<open>new Date()\<close>, \<open>newId\<close> the identifier generated for a new document) and the store, and
  returns the response with the store after the request. A handler that answers with an
  error before \<open>save\<close> leaves the store as it was.
\<close>

text \<open>visitSchema.statics.hasActiveVisit\<close>

definition hasActiveVisit :: "store \<Rightarrow> oid \<Rightarrow> bool" where
  "hasActiveVisit s doctorId =
     (find (\<lambda>v. doctor v = doctorId \<and> (status v = Scheduled \<or> status v = InProgress)) (Visit s)
        \<noteq> None)"

record visit_body =
  req_doctorId :: oid
  req_scheduledDate :: date
  req_chiefComplaint :: "string option"

text \<open>createVisit (POST /api/visits), after the request validators.\<close>

definition createVisit :: "date \<Rightarrow> oid \<Rightarrow> oid \<Rightarrow> visit_body \<Rightarrow> store \<Rightarrow> visit response" where
  "createVisit now newId patientId body s =
     (case find (\<lambda>u. user_id u = req_doctorId body \<and> user_role u = Doctor \<and> isActive u) (User s) of
        None \<Rightarrow> (Inl NotFoundError, s)
      | Some d \<Rightarrow>
          if hasActiveVisit s (req_doctorId body) then (Inl ConflictError, s)
          else save now
            \<lparr>doc = \<lparr>visit_id = newId, patient = patientId, doctor = req_doctorId body,
                     status = Scheduled, scheduledDate = req_scheduledDate body,
                     startTime = None, endTime = None,
                     chiefComplaint = map_option trim (req_chiefComplaint body),
                     diagnosis = None, notes = None, treatments = [], totalAmount = Fin 0,
                     paymentStatus = Pending, createdAt = now, updatedAt = now\<rparr>,
             isNew = True, modifiedPaths = {}\<rparr> s)"

text \<open>
  createVisitValidation (middleware/visitValidation.js): the scheduled date must not lie
  before the clock reading, the trimmed chief complaint holds at most 1000 characters.
  Well-formed identifiers and dates are what the types \<open>oid\<close> and \<open>date\<close> hold.
\<close>

definition createVisitValidation :: "date \<Rightarrow> visit_body \<Rightarrow> bool" where
  "createVisitValidation now body = (\<not> req_scheduledDate body < now \<and>
     max_length 1000 (map_option trim (req_chiefComplaint body)))"

text \<open>The route \<open>POST /\<close> of routes/visitRoutes.js: the validators, then the controller.\<close>

definition post_visit :: "date \<Rightarrow> oid \<Rightarrow> oid \<Rightarrow> visit_body \<Rightarrow> store \<Rightarrow> visit response" where
  "post_visit now newId patientId body s =
     (if \<not> createVisitValidation now body then (Inl ValidationError, s)
      else createVisit now newId patientId body s)"

text \<open>startVisit\<close>

definition startVisit :: "date \<Rightarrow> oid \<Rightarrow> oid \<Rightarrow> store \<Rightarrow> visit response" where
  "startVisit now vid doctorId s =
     (case find (\<lambda>v. visit_id v = vid \<and> doctor v = doctorId) (Visit s) of
        None \<Rightarrow> (Inl NotFoundError, s)
      | Some v \<Rightarrow>
          if status v \<noteq> Scheduled then (Inl InvalidTransitionError, s)
          else save now
            (assign ''startTime'' (\<lambda>v. v\<lparr>startTime := Some now\<rparr>)
              (assign ''status'' (\<lambda>v. v\<lparr>status := InProgress\<rparr>) (load v))) s)"

text \<open>completeVisit\<close>

definition completeVisit :: "date \<Rightarrow> oid \<Rightarrow> oid \<Rightarrow> store \<Rightarrow> visit response" where
  "completeVisit now vid doctorId s =
     (case find (\<lambda>v. visit_id v = vid \<and> doctor v = doctorId) (Visit s) of
        None \<Rightarrow> (Inl NotFoundError, s)
      | Some v \<Rightarrow>
          if status v = Completed then (Inl InvalidTransitionError, s)
          else if status v = Cancelled then (Inl InvalidTransitionError, s)
          else save now
            (assign ''endTime'' (\<lambda>v. v\<lparr>endTime := Some now\<rparr>)
              (assign ''status'' (\<lambda>v. v\<lparr>status := Completed\<rparr>) (load v))) s)"

text \<open>cancelVisit: a patient cancels a visit of their own, a doctor one of theirs.\<close>

definition cancelVisit :: "date \<Rightarrow> role \<Rightarrow> oid \<Rightarrow> oid \<Rightarrow> store \<Rightarrow> visit response" where
  "cancelVisit now r userId vid s =
     (if r \<noteq> Patient \<and> r \<noteq> Doctor then (Inl AuthorizationError, s)
      else
        (case find (\<lambda>v. visit_id v = vid \<and>
                  (if r = Patient then patient v = userId else doctor v = userId)) (Visit s) of
           None \<Rightarrow> (Inl NotFoundError, s)
         | Some v \<Rightarrow>
             if status v = Completed then (Inl InvalidTransitionError, s)
             else if status v = Cancelled then (Inl InvalidTransitionError, s)
             else save now (assign ''status'' (\<lambda>v. v\<lparr>status := Cancelled\<rparr>) (load v)) s))"

text \<open>
  The body of the treatment requests: \<open>None\<close> is a field the request leaves out
  (\<open>undefined\<close>).
\<close>

record treatment_body =
  req_name :: "string option"
  req_description :: "string option"
  req_quantity :: "number option"
  req_unitPrice :: "number option"
  req_category :: "string option"

text \<open>
  addTreatment. A \<open>unitPrice\<close> left out multiplies as \<open>NaN\<close> and a \<open>name\<close> left out is
  no name: the schema validators reject both on save. The schema trims \<open>name\<close> and
  \<open>description\<close>.
\<close>

definition addTreatment ::
  "date \<Rightarrow> oid \<Rightarrow> oid \<Rightarrow> oid \<Rightarrow> treatment_body \<Rightarrow> store \<Rightarrow> visit response" where
  "addTreatment now newId vid doctorId body s =
     (case find (\<lambda>v. visit_id v = vid \<and> doctor v = doctorId) (Visit s) of
        None \<Rightarrow> (Inl NotFoundError, s)
      | Some v \<Rightarrow>
          if status v = Completed \<or> status v = Cancelled then (Inl InvalidTransitionError, s)
          else
            (let qty = (case req_quantity body of None \<Rightarrow> Fin 1 | Some q \<Rightarrow> or_default q (Fin 1));
                 price = (case req_unitPrice body of None \<Rightarrow> NaN | Some u \<Rightarrow> u);
                 total = js_mul price qty;
                 d = push \<lparr>treatment_id = newId,
                       name = (case req_name body of None \<Rightarrow> [] | Some n \<Rightarrow> trim n),
                       description = map_option trim (req_description body),
                       quantity = qty, unitPrice = price, totalPrice = total,
                       category = (case req_category body of None \<Rightarrow> ''other''
                          | Some c \<Rightarrow> if c = [] then ''other'' else c)\<rparr> (load v)
             in save now (calculateTotalAmount d) s))"

text \<open>The assignments of updateTreatment to the treatment found, and its new total price.\<close>

definition update_fields :: "treatment_body \<Rightarrow> treatment \<Rightarrow> treatment" where
  "update_fields body t =
     (let t1 = (case req_name body of None \<Rightarrow> t | Some n \<Rightarrow> t\<lparr>name := trim n\<rparr>);
          t2 = (case req_description body of None \<Rightarrow> t1 | Some x \<Rightarrow> t1\<lparr>description := Some (trim x)\<rparr>);
          t3 = (case req_quantity body of None \<Rightarrow> t2 | Some q \<Rightarrow> t2\<lparr>quantity := q\<rparr>);
          t4 = (case req_unitPrice body of None \<Rightarrow> t3 | Some u \<Rightarrow> t3\<lparr>unitPrice := u\<rparr>);
          t5 = (case req_category body of None \<Rightarrow> t4 | Some c \<Rightarrow> t4\<lparr>category := c\<rparr>)
      in t5\<lparr>totalPrice := js_mul (unitPrice t5) (quantity t5)\<rparr>)"

text \<open>updateTreatment: \<open>treatments.id(treatmentId)\<close> is the first treatment with that id.\<close>

definition updateTreatment ::
  "date \<Rightarrow> oid \<Rightarrow> oid \<Rightarrow> oid \<Rightarrow> treatment_body \<Rightarrow> store \<Rightarrow> visit response" where
  "updateTreatment now vid treatmentId doctorId body s =
     (case find (\<lambda>v. visit_id v = vid \<and> doctor v = doctorId) (Visit s) of
        None \<Rightarrow> (Inl NotFoundError, s)
      | Some v \<Rightarrow>
          if status v = Completed \<or> status v = Cancelled then (Inl InvalidTransitionError, s)
          else
            (case find (\<lambda>t. treatment_id t = treatmentId) (treatments v) of
               None \<Rightarrow> (Inl NotFoundError, s)
             | Some t \<Rightarrow>
                 (let d = assign ''treatments'' (\<lambda>v. v\<lparr>treatments :=
                            update_first (\<lambda>t. treatment_id t = treatmentId) (update_fields body)
                              (treatments v)\<rparr>) (load v)
                  in save now (calculateTotalAmount d) s)))"

text \<open>deleteTreatment\<close>

definition deleteTreatment :: "date \<Rightarrow> oid \<Rightarrow> oid \<Rightarrow> oid \<Rightarrow> store \<Rightarrow> visit response" where
  "deleteTreatment now vid treatmentId doctorId s =
     (case find (\<lambda>v. visit_id v = vid \<and> doctor v = doctorId) (Visit s) of
        None \<Rightarrow> (Inl NotFoundError, s)
      | Some v \<Rightarrow>
          if status v = Completed \<or> status v = Cancelled then (Inl InvalidTransitionError, s)
          else save now (calculateTotalAmount (pull treatmentId (load v))) s)"

text \<open>
  addTreatmentValidation and updateTreatmentValidation (middleware/treatmentValidation.js).
  A validator reads a number as the string it prints to. \<open>isInt({min: 1})\<close> accepts the
  whole numbers from 1 that print without an exponent, those below \<open>10^21\<close>;
  \<open>isFloat({min: 0})\<close> accepts the finite numbers from 0. The category passes \<open>isIn\<close>, the
  name is not empty once trimmed.
\<close>

definition isInt_min1 :: "number \<Rightarrow> bool" where
  "isInt_min1 q = (is_integer q \<and> js_le (Fin 1) q \<and> \<not> js_le (Fin (10 ^ 21)) q)"

definition isFloat_min0 :: "number \<Rightarrow> bool" where
  "isFloat_min0 u = (is_finite u \<and> js_le (Fin 0) u)"

definition addTreatmentValidation :: "treatment_body \<Rightarrow> bool" where
  "addTreatmentValidation body =
     ((case req_name body of None \<Rightarrow> False | Some n \<Rightarrow> trim n \<noteq> []) \<and>
      (case req_quantity body of None \<Rightarrow> True | Some q \<Rightarrow> isInt_min1 q) \<and>
      (case req_unitPrice body of None \<Rightarrow> False | Some u \<Rightarrow> isFloat_min0 u) \<and>
      (case req_category body of None \<Rightarrow> True | Some c \<Rightarrow> c \<in> set categories))"

definition updateTreatmentValidation :: "treatment_body \<Rightarrow> bool" where
  "updateTreatmentValidation body =
     ((case req_name body of None \<Rightarrow> True | Some n \<Rightarrow> trim n \<noteq> []) \<and>
      (case req_quantity body of None \<Rightarrow> True | Some q \<Rightarrow> isInt_min1 q) \<and>
      (case req_unitPrice body of None \<Rightarrow> True | Some u \<Rightarrow> isFloat_min0 u) \<and>
      (case req_category body of None \<Rightarrow> True | Some c \<Rightarrow> c \<in> set categories))"

section \<open>The finance controller\<close>

datatype id_param = NoId | BadId | GoodId oid

text \<open>
  The query string of \<open>GET /api/finance/visits\<close>. \<open>NoId\<close> is no \<open>visitId\<close> (or an empty
  one), \<open>BadId\<close> one that is no ObjectId, \<open>GoodId\<close> one that is; the dates are what
  \<open>new Date\<close> reads, \<open>q_page\<close> and \<open>q_limit\<close> the integers that \<open>parseInt\<close> reads; \<open>None\<close> is a
  parameter left out, which takes its default.
\<close>

record search_query =
  q_visitId :: id_param
  q_doctorName :: "string option"
  q_patientName :: "string option"
  q_status :: "string option"
  q_paymentStatus :: "string option"
  q_startDate :: "date option"
  q_endDate :: "date option"
  q_page :: "int option"
  q_limit :: "int option"
  q_sortBy :: "string option"
  q_sortOrder :: "string option"

text \<open>A filter applies when its parameter is truthy: given and not the empty string.\<close>

fun string_filter :: "string option \<Rightarrow> (string \<Rightarrow> bool) \<Rightarrow> bool" where
  "string_filter None P = True"
| "string_filter (Some []) P = True"
| "string_filter (Some (c # cs)) P = P (c # cs)"

fun date_filter :: "date option \<Rightarrow> (date \<Rightarrow> bool) \<Rightarrow> bool" where
  "date_filter None P = True"
| "date_filter (Some t) P = P t"

text \<open>
  The \<open>$match\<close> stage built from \<open>query\<close>: id, status, payment status, date range. An
  aggregation pipeline reaches the store as it is written, so \<open>query._id\<close> is the string of
  the request there: it equals the ObjectId of no visit, and a search with a well-formed
  \<open>visitId\<close> matches nothing.
\<close>

definition match_query :: "search_query \<Rightarrow> visit \<Rightarrow> bool" where
  "match_query q v =
     ((case q_visitId q of GoodId i \<Rightarrow> False | _ \<Rightarrow> True) \<and>
      string_filter (q_status q) (\<lambda>x. status_name (status v) = x) \<and>
      string_filter (q_paymentStatus q) (\<lambda>x. payment_name (paymentStatus v) = x) \<and>
      date_filter (q_startDate q) (\<lambda>t. t \<le> scheduledDate v) \<and>
      date_filter (q_endDate q) (\<lambda>t. scheduledDate v \<le> t))"

text \<open>A visit joined with its patient and its doctor (\<open>$lookup\<close>, \<open>$unwind\<close>, \<open>$project\<close>).\<close>

record row =
  row_visit :: visit
  patientDetails :: user
  doctorDetails :: user

definition lookup_rows :: "store \<Rightarrow> visit list \<Rightarrow> row list" where
  "lookup_rows s vs =
     concat (map (\<lambda>v.
       concat (map (\<lambda>p.
         map (\<lambda>d. \<lparr>row_visit = v, patientDetails = p, doctorDetails = d\<rparr>)
           (filter (\<lambda>u. user_id u = doctor v) (User s)))
         (filter (\<lambda>u. user_id u = patient v) (User s)))) vs)"

text \<open>
  The operators of the store's aggregation engine, which the repository does not define.
  \<open>regex_i\<close> is \<open>$regex\<close> with option \<open>i\<close>: \<open>None\<close> for a pattern that the store rejects,
  else the strings that the pattern matches. \<open>sum_acc\<close> is the accumulator \<open>$sum\<close> over the
  values of a group. \<open>sort_stage\<close> is the stage \<open>$sort\<close> of one call of \<open>aggregate\<close>, on
  one path and in one direction (\<open>True\<close> for ascending): \<open>None\<close> when the store rejects the
  stage, else the rows in the order in which the call returns them.
\<close>

record engine =
  regex_i :: "string \<Rightarrow> (string \<Rightarrow> bool) option"
  sum_acc :: "number list \<Rightarrow> number"
  sort_stage :: "string \<Rightarrow> bool \<Rightarrow> row list \<Rightarrow> row list option"

text \<open>A name filter applies when its parameter is truthy; its pattern goes to the store.\<close>

fun name_filter :: "engine \<Rightarrow> string option \<Rightarrow> (string \<Rightarrow> bool) option" where
  "name_filter eng None = Some (\<lambda>x. True)"
| "name_filter eng (Some []) = Some (\<lambda>x. True)"
| "name_filter eng (Some (c # cs)) = regex_i eng (c # cs)"

text \<open>
  The pipeline up to the projection: what \<open>$count\<close> counts and \<open>$sort\<close> sorts; \<open>None\<close> when
  the store rejects one of the name patterns.
\<close>

definition filtered_rows :: "engine \<Rightarrow> search_query \<Rightarrow> store \<Rightarrow> row list option" where
  "filtered_rows eng q s =
     (case name_filter eng (q_patientName q) of
        None \<Rightarrow> None
      | Some P \<Rightarrow>
          (case name_filter eng (q_doctorName q) of
             None \<Rightarrow> None
           | Some D \<Rightarrow>
               Some (filter (\<lambda>r. D (user_name (doctorDetails r)))
                 (filter (\<lambda>r. P (user_name (patientDetails r)))
                   (lookup_rows s (filter (match_query q) (Visit s)))))))"

text \<open>
  The values a sort key can hold and their order in the store: a missing field before
  numbers, numbers before strings, then identifiers, then dates; strings by their bytes.
\<close>

datatype bson = BMissing | BNumber number | BString string | BObjectId oid | BDate date

type_synonym sort_key = "nat \<times> (nat \<times> rat) \<times> string \<times> int"

fun bson_ord :: "bson \<Rightarrow> sort_key" where
  "bson_ord BMissing = (0, (0, 0), [], 0)"
| "bson_ord (BNumber NaN) = (1, (0, 0), [], 0)"
| "bson_ord (BNumber NegInf) = (1, (1, 0), [], 0)"
| "bson_ord (BNumber (Fin a)) = (1, (2, a), [], 0)"
| "bson_ord (BNumber PosInf) = (1, (3, 0), [], 0)"
| "bson_ord (BString x) = (2, (0, 0), x, 0)"
| "bson_ord (BObjectId i) = (3, (0, 0), [], int i)"
| "bson_ord (BDate t) = (4, (0, 0), [], t)"

definition opt_date :: "date option \<Rightarrow> bson" where
  "opt_date t = (case t of None \<Rightarrow> BMissing | Some x \<Rightarrow> BDate x)"

definition opt_string :: "string option \<Rightarrow> bson" where
  "opt_string t = (case t of None \<Rightarrow> BMissing | Some x \<Rightarrow> BString x)"

text \<open>
  The scalar paths of a projected row, each with the value it holds. \<open>field\<close> is \<open>None\<close> on
  every other path: the embedded documents \<open>patient\<close> and \<open>doctor\<close>, the array
  \<open>treatments\<close> and the paths into it, a path that the projection does not have, the empty
  path. What \<open>$sort\<close> does on those is left to the store.
\<close>

definition projected :: "(string \<times> (row \<Rightarrow> bson)) list" where
  "projected =
     [(''_id'', \<lambda>r. BObjectId (visit_id (row_visit r))),
      (''status'', \<lambda>r. BString (status_name (status (row_visit r)))),
      (''scheduledDate'', \<lambda>r. BDate (scheduledDate (row_visit r))),
      (''startTime'', \<lambda>r. opt_date (startTime (row_visit r))),
      (''endTime'', \<lambda>r. opt_date (endTime (row_visit r))),
      (''chiefComplaint'', \<lambda>r. opt_string (chiefComplaint (row_visit r))),
      (''diagnosis'', \<lambda>r. opt_string (diagnosis (row_visit r))),
      (''notes'', \<lambda>r. opt_string (notes (row_visit r))),
      (''totalAmount'', \<lambda>r. BNumber (totalAmount (row_visit r))),
      (''paymentStatus'', \<lambda>r. BString (payment_name (paymentStatus (row_visit r)))),
      (''createdAt'', \<lambda>r. BDate (createdAt (row_visit r))),
      (''updatedAt'', \<lambda>r. BDate (updatedAt (row_visit r))),
      (''patient._id'', \<lambda>r. BObjectId (user_id (patientDetails r))),
      (''patient.name'', \<lambda>r. BString (user_name (patientDetails r))),
      (''patient.email'', \<lambda>r. BString (email (patientDetails r))),
      (''patient.phone'', \<lambda>r. opt_string (phone (patientDetails r))),
      (''doctor._id'', \<lambda>r. BObjectId (user_id (doctorDetails r))),
      (''doctor.name'', \<lambda>r. BString (user_name (doctorDetails r))),
      (''doctor.email'', \<lambda>r. BString (email (doctorDetails r))),
      (''doctor.specialization'', \<lambda>r. opt_string (specialization (doctorDetails r)))]"

definition field :: "string \<Rightarrow> (row \<Rightarrow> bson) option" where
  "field f = map_of projected f"

definition sort_key_of :: "(row \<Rightarrow> bson) \<Rightarrow> row \<Rightarrow> sort_key" where
  "sort_key_of key r = bson_ord (key r)"

text \<open>
  What the store promises of \<open>$sort\<close> on a scalar path: it accepts the stage and returns the
  rows it is given, each as often as it is given, in the order of their keys, ascending or
  descending. About rows with equal keys it promises nothing: their order is the store's
  choice in every call.
\<close>

definition ordered :: "bool \<Rightarrow> sort_key list \<Rightarrow> bool" where
  "ordered asc ks = (if asc then sorted ks else sorted (rev ks))"

definition sorts_by :: "(row \<Rightarrow> bson) \<Rightarrow> bool \<Rightarrow> row list \<Rightarrow> row list \<Rightarrow> bool" where
  "sorts_by key asc rows out = (mset out = mset rows \<and> ordered asc (map (sort_key_of key) out))"

definition sort_contract :: "(string \<Rightarrow> bool \<Rightarrow> row list \<Rightarrow> row list option) \<Rightarrow> bool" where
  "sort_contract srt =
     (\<forall>path asc rows.
        case field path of
          None \<Rightarrow> True
        | Some key \<Rightarrow> (case srt path asc rows of None \<Rightarrow> False | Some out \<Rightarrow> sorts_by key asc rows out))"

text \<open>The stage \<open>$sort: {[sortBy]: sortDirection}\<close> has the one key of the request.\<close>

definition sort_field :: "search_query \<Rightarrow> string" where
  "sort_field q = (case q_sortBy q of None \<Rightarrow> ''scheduledDate'' | Some f \<Rightarrow> f)"

definition ascending :: "search_query \<Rightarrow> bool" where
  "ascending q = (q_sortOrder q = Some ''asc'')"

record stats =
  totalRevenue :: number
  completedVisits :: nat
  pendingPayments :: nat
  partialPayments :: nat
  paidVisits :: nat

text \<open>
  The \<open>$group\<close> stage of the statistics and the defaults of the response. \<open>totalRevenue\<close> is
  the number the response prints with \<open>toFixed(2)\<close>.
\<close>

definition group_stats :: "engine \<Rightarrow> visit list \<Rightarrow> stats" where
  "group_stats eng vs =
     \<lparr>totalRevenue = (if vs = [] then Fin 0
         else or_default (sum_acc eng (map totalAmount vs)) (Fin 0)),
      completedVisits = length (filter (\<lambda>v. status v = Completed) vs),
      pendingPayments = length (filter (\<lambda>v. paymentStatus v = Pending) vs),
      partialPayments = length (filter (\<lambda>v. paymentStatus v = Partial) vs),
      paidVisits = length (filter (\<lambda>v. paymentStatus v = Paid) vs)\<rparr>"

record search_result =
  visits_count :: nat
  total :: nat
  page :: int
  pages :: int
  statistics :: stats
  visits :: "row list"

text \<open>
  searchVisits. The store rejects a negative \<open>$skip\<close> and a \<open>$limit\<close> that is not
  positive; an aggregate that the store rejects (these, a name pattern, the sort stage)
  raises, and the error handler answers with a 500. \<open>Math.ceil(total / limit)\<close> divides two
  integers below \<open>2^53\<close>, where the double quotient has the ceiling of the exact one.
\<close>

definition page_of :: "search_query \<Rightarrow> int" where
  "page_of q = (case q_page q of None \<Rightarrow> 1 | Some n \<Rightarrow> n)"

definition limit_of :: "search_query \<Rightarrow> int" where
  "limit_of q = (case q_limit q of None \<Rightarrow> 20 | Some n \<Rightarrow> n)"

definition searchVisits :: "engine \<Rightarrow> search_query \<Rightarrow> store \<Rightarrow> error + search_result" where
  "searchVisits eng q s =
     (if q_visitId q = BadId then Inl ValidationError
      else
        (case filtered_rows eng q s of
           None \<Rightarrow> Inl ServerError
         | Some rows \<Rightarrow>
             (let skip = (page_of q - 1) * limit_of q
              in if skip < 0 \<or> limit_of q \<le> 0 then Inl ServerError
                 else
                   (case sort_stage eng (sort_field q) (ascending q) rows of
                      None \<Rightarrow> Inl ServerError
                    | Some sorted_rows \<Rightarrow>
                        (let vs = take (nat (limit_of q)) (drop (nat skip) sorted_rows)
                         in Inr \<lparr>visits_count = length vs, total = length rows, page = page_of q,
                              pages = \<lceil>rat_of_nat (length rows) / rat_of_int (limit_of q)\<rceil>,
                              statistics = group_stats eng (filter (match_query q) (Visit s)),
                              visits = vs\<rparr>)))))"

text \<open>updatePaymentStatus\<close>

definition updatePaymentStatus :: "date \<Rightarrow> oid \<Rightarrow> string option \<Rightarrow> store \<Rightarrow> visit response" where
  "updatePaymentStatus now vid req_paymentStatus s =
     (case Option.bind req_paymentStatus parse_payment of
        None \<Rightarrow> (Inl ValidationError, s)
      | Some p \<Rightarrow>
          (case find (\<lambda>v. visit_id v = vid) (Visit s) of
             None \<Rightarrow> (Inl NotFoundError, s)
           | Some v \<Rightarrow> save now (assign ''paymentStatus'' (\<lambda>v. v\<lparr>paymentStatus := p\<rparr>) (load v)) s))"

section \<open>Properties stated about the controllers\<close>

text \<open>Every quantity of a ledger, and the quantity of a request, is a finite number.\<close>

definition finite_quantities :: "treatment list \<Rightarrow> bool" where
  "finite_quantities ts = list_all (\<lambda>t. is_finite (quantity t)) ts"

definition body_quantity_finite :: "treatment_body \<Rightarrow> bool" where
  "body_quantity_finite body = (case req_quantity body of None \<Rightarrow> True | Some q \<Rightarrow> is_finite q)"

text \<open>
  What every visit written through \<open>save\<close> satisfies: the schema validators, and each
  total price as its treatment's pre-save hook computes it.
\<close>

definition priced :: "treatment list \<Rightarrow> bool" where
  "priced ts = list_all (\<lambda>t. totalPrice t = js_mul (unitPrice t) (quantity t)) ts"

definition consistent_visit :: "visit \<Rightarrow> bool" where
  "consistent_visit v = (validate_visit v \<and> priced (treatments v))"

text \<open>
  The transition table as section 8 of the specification words it, and the table the
  controllers implement (completeVisit also accepts a scheduled visit).
\<close>

fun spec_legal :: "visit_status \<Rightarrow> visit_status \<Rightarrow> bool" where
  "spec_legal Scheduled InProgress = True"
| "spec_legal Scheduled Cancelled = True"
| "spec_legal InProgress Completed = True"
| "spec_legal InProgress Cancelled = True"
| "spec_legal _ _ = False"

fun legal :: "visit_status \<Rightarrow> visit_status \<Rightarrow> bool" where
  "legal Scheduled InProgress = True"
| "legal Scheduled Completed = True"
| "legal Scheduled Cancelled = True"
| "legal InProgress Completed = True"
| "legal InProgress Cancelled = True"
| "legal _ _ = False"

text \<open>
  Exact money: each total price is the product and the total amount the sum, computed on
  the rationals without rounding.
\<close>

fun exact_mul :: "number \<Rightarrow> number \<Rightarrow> number" where
  "exact_mul (Fin a) (Fin b) = Fin (a * b)"
| "exact_mul _ _ = NaN"

fun exact_add :: "number \<Rightarrow> number \<Rightarrow> number" where
  "exact_add (Fin a) (Fin b) = Fin (a + b)"
| "exact_add _ _ = NaN"

definition exact_sum :: "number list \<Rightarrow> number" where
  "exact_sum xs = foldl exact_add (Fin 0) xs"

definition exact_money :: "visit \<Rightarrow> bool" where
  "exact_money v = (list_all (\<lambda>t. totalPrice t = exact_mul (unitPrice t) (quantity t)) (treatments v) \<and>
     totalAmount v = exact_sum (map totalPrice (treatments v)))"

text \<open>
  Whole units: every unit price and quantity of the ledger is an integer, and the exact
  total of the ledger is at most \<open>2^53\<close>.
\<close>

definition whole_units :: "visit \<Rightarrow> bool" where
  "whole_units v = (list_all (\<lambda>t. is_integer (unitPrice t) \<and> is_integer (quantity t)) (treatments v) \<and>
     js_le (exact_sum (map (\<lambda>t. exact_mul (unitPrice t) (quantity t)) (treatments v))) (Fin (2 ^ 53)))"

text \<open>
  The rows that the request for page \<open>p\<close> of a query returns. Every page is a request of
  its own, with searches of its own: \<open>srt p\<close> is the sort stage of the call that answers
  page \<open>p\<close>.
\<close>

definition page_visits ::
  "engine \<Rightarrow> (int \<Rightarrow> string \<Rightarrow> bool \<Rightarrow> row list \<Rightarrow> row list option) \<Rightarrow> search_query \<Rightarrow> store \<Rightarrow>
     int \<Rightarrow> row list" where
  "page_visits eng srt q s p =
     (case searchVisits (eng\<lparr>sort_stage := srt p\<rparr>) (q\<lparr>q_page := Some p\<rparr>) s of
        Inr r \<Rightarrow> visits r
      | Inl e \<Rightarrow> [])"

text \<open>
  The statistics as the specification words them: over the rows that pass every filter,
  the name filters included (the rows that \<open>total\<close> counts).
\<close>

definition spec_statistics :: "engine \<Rightarrow> search_query \<Rightarrow> store \<Rightarrow> stats option" where
  "spec_statistics eng q s =
     map_option (\<lambda>rows. group_stats eng (map row_visit rows)) (filtered_rows eng q s)"

section \<open>Sample data\<close>

definition sample_visit :: "visit_status \<Rightarrow> visit" where
  "sample_visit st = \<lparr>visit_id = 1, patient = 10, doctor = 20, status = st,
     scheduledDate = 9000, startTime = None, endTime = None, chiefComplaint = None,
     diagnosis = None, notes = None, treatments = [], totalAmount = Fin 0,
     paymentStatus = Pending, createdAt = 1000, updatedAt = 1000\<rparr>"

definition sample_users :: "user list" where
  "sample_users =
     [\<lparr>user_id = 10, user_name = ''Alice Adams'', email = ''alice@example.org'', phone = None,
        specialization = None, user_role = Patient, isActive = True\<rparr>,
      \<lparr>user_id = 11, user_name = ''Bob Brown'', email = ''bob@example.org'', phone = None,
        specialization = None, user_role = Patient, isActive = True\<rparr>,
      \<lparr>user_id = 20, user_name = ''Dora Diaz'', email = ''dora@example.org'', phone = None,
        specialization = Some ''cardiology'', user_role = Doctor, isActive = True\<rparr>]"

definition sample_store :: "visit_status \<Rightarrow> store" where
  "sample_store st = \<lparr>Visit = [sample_visit st], User = sample_users\<rparr>"

definition sample_body :: "number \<Rightarrow> number \<Rightarrow> treatment_body" where
  "sample_body price qty = \<lparr>req_name = Some ''X-ray'', req_description = None,
     req_quantity = Some qty, req_unitPrice = Some price, req_category = Some ''imaging''\<rparr>"

definition sample_treatment :: treatment where
  "sample_treatment = \<lparr>treatment_id = 7, name = ''X-ray'', description = None,
     quantity = Fin 2, unitPrice = Fin 50, totalPrice = Fin 100, category = ''imaging''\<rparr>"

definition sample_billed :: visit where
  "sample_billed = (sample_visit Scheduled)\<lparr>treatments := [sample_treatment],
     totalAmount := Fin 100, updatedAt := 5000\<rparr>"

definition billed_store :: store where
  "billed_store = \<lparr>Visit = [sample_billed], User = sample_users\<rparr>"

definition sample_repriced :: visit where
  "sample_repriced = sample_billed\<lparr>treatments := [sample_treatment\<lparr>quantity := Fin 3,
     unitPrice := Fin 25, totalPrice := Fin 75\<rparr>], totalAmount := Fin 75, updatedAt := 6000\<rparr>"

definition sample_emptied :: visit where
  "sample_emptied = sample_billed\<lparr>treatments := [], totalAmount := Fin 0, updatedAt := 7000\<rparr>"

definition sample_visit_body :: "date \<Rightarrow> visit_body" where
  "sample_visit_body t = \<lparr>req_doctorId = 20, req_scheduledDate = t,
     req_chiefComplaint = Some '' chest pain ''\<rparr>"

definition sample_created :: visit where
  "sample_created = \<lparr>visit_id = 3, patient = 10, doctor = 20, status = Scheduled,
     scheduledDate = 9000, startTime = None, endTime = None,
     chiefComplaint = Some ''chest pain'', diagnosis = None, notes = None, treatments = [],
     totalAmount = Fin 0, paymentStatus = Pending, createdAt = 5000, updatedAt = 5000\<rparr>"

text \<open>The double nearest to 0.1, and the visit billed three units at that price.\<close>

definition tenth :: rat where
  "tenth = 3602879701896397 / 36028797018963968"

definition sample_drift :: visit where
  "sample_drift = (sample_visit Scheduled)\<lparr>treatments := [\<lparr>treatment_id = 7, name = ''X-ray'',
       description = None, quantity = Fin 3, unitPrice = Fin tenth,
       totalPrice = Fin (1351079888211149 / 4503599627370496), category = ''imaging''\<rparr>],
     totalAmount := Fin (1351079888211149 / 4503599627370496), updatedAt := 5000\<rparr>"

text \<open>
  An engine to run the search on the sample data. It decides the patterns without an
  operator of regular expressions (such a pattern matches the strings that contain it,
  letters compared without case) and no other pattern; its sums add from left to right;
  its sort takes the scalar paths and is stable: rows with equal keys stay in the order in
  which the pipeline yields them.
\<close>

definition lower :: "char \<Rightarrow> char" where
  "lower c = (case map_of (zip ''ABCDEFGHIJKLMNOPQRSTUVWXYZ'' ''abcdefghijklmnopqrstuvwxyz'') c of
     None \<Rightarrow> c | Some l \<Rightarrow> l)"

fun contains :: "string \<Rightarrow> string \<Rightarrow> bool" where
  "contains p [] = (p = [])"
| "contains p (c # cs) = (take (length p) (c # cs) = p \<or> contains p cs)"

definition operators :: string where
  "operators = CHR 0x5C # ''^$.|?*+()[]{}''"

definition literal_regex :: "string \<Rightarrow> (string \<Rightarrow> bool) option" where
  "literal_regex p =
     (if list_ex (\<lambda>c. c \<in> set operators) p then None
      else Some (\<lambda>x. contains (map lower p) (map lower x)))"

definition stable_sort :: "string \<Rightarrow> bool \<Rightarrow> row list \<Rightarrow> row list option" where
  "stable_sort path asc rows =
     (case field path of
        None \<Rightarrow> None
      | Some key \<Rightarrow>
          Some (if asc then sort_key (sort_key_of key) rows
                else rev (sort_key (sort_key_of key) (rev rows))))"

definition literal_engine :: engine where
  "literal_engine = \<lparr>regex_i = literal_regex, sum_acc = js_sum, sort_stage = stable_sort\<rparr>"

text \<open>
  A second sort stage, which takes the rows from the last to the first before it sorts
  them: rows with equal keys come out in the opposite order.
\<close>

definition reverse_sort :: "string \<Rightarrow> bool \<Rightarrow> row list \<Rightarrow> row list option" where
  "reverse_sort path asc rows = stable_sort path asc (rev rows)"

definition sample_query :: search_query where
  "sample_query = \<lparr>q_visitId = NoId, q_doctorName = None, q_patientName = None,
     q_status = None, q_paymentStatus = None, q_startDate = None, q_endDate = None,
     q_page = None, q_limit = None, q_sortBy = None, q_sortOrder = None\<rparr>"

text \<open>The search by ascending total amount, and the same search one row to the page.\<close>

definition amount_query :: search_query where
  "amount_query = sample_query\<lparr>q_sortBy := Some ''totalAmount'', q_sortOrder := Some ''asc''\<rparr>"

definition amount_pages :: search_query where
  "amount_pages = amount_query\<lparr>q_limit := Some 1\<rparr>"

text \<open>The default search, by descending scheduled date, one row to the page.\<close>

definition date_pages :: search_query where
  "date_pages = sample_query\<lparr>q_limit := Some 1\<rparr>"


text \<open>
  Two completed visits of one doctor on the same date, Bob's stored before Alice's and
  with the greater id and the greater amount first.
\<close>

definition finance_store :: store where
  "finance_store = \<lparr>Visit =
     [(sample_visit Completed)\<lparr>visit_id := 2, patient := 11, totalAmount := Fin 20,
        paymentStatus := Paid\<rparr>,
      (sample_visit Completed)\<lparr>visit_id := 1, patient := 10, totalAmount := Fin 10\<rparr>],
     User = sample_users\<rparr>"

text \<open>The rows of Bob's visit and of Alice's visit.\<close>

definition bob_row :: row where
  "bob_row = \<lparr>row_visit = Visit finance_store ! 0, patientDetails = sample_users ! 1,
     doctorDetails = sample_users ! 2\<rparr>"

definition alice_row :: row where
  "alice_row = \<lparr>row_visit = Visit finance_store ! 1, patientDetails = sample_users ! 0,
     doctorDetails = sample_users ! 2\<rparr>"

section \<open>Rounding to a double\<close>

lemma ilog2_bounds:
  assumes "0 < x"
  shows "2 powi (ilog2 x) \<le> x \<and> x < 2 powi (ilog2 x + 1)"
proof -
  obtain p q where pq: "quotient_of x = (p, q)" by (cases "quotient_of x")
  have q: "0 < q" using pq by (rule quotient_of_denom_pos)
  have x: "x = of_int p / of_int q" using pq by (rule quotient_of_div)
  have p: "0 < p" using assms q x by (simp add: zero_less_divide_iff)
  define a where "a = floorlog 2 (nat p)"
  define b where "b = floorlog 2 (nat q)"
  have ba: "2 ^ (a - 1) \<le> nat p" "nat p < 2 ^ a"
    using floorlog_bounds[of "nat p" 2] p by (simp_all add: a_def)
  have bb: "2 ^ (b - 1) \<le> nat q" "nat q < 2 ^ b"
    using floorlog_bounds[of "nat q" 2] q by (simp_all add: b_def)
  have a1: "1 \<le> a" using p by (simp add: a_def floorlog_def)
  have b1: "1 \<le> b" using q by (simp add: b_def floorlog_def)
  have rp: "(2::rat) ^ (a - 1) \<le> of_int p" "of_int p < (2::rat) ^ a"
  proof -
    have "int (2 ^ (a - 1)) \<le> int (nat p)" using ba(1) by (simp only: of_nat_le_iff)
    then have "(2::int) ^ (a - 1) \<le> p" using p by simp
    then have "rat_of_int (2 ^ (a - 1)) \<le> of_int p" by (simp only: of_int_le_iff)
    then show "(2::rat) ^ (a - 1) \<le> of_int p" by simp
    have "int (nat p) < int (2 ^ a)" using ba(2) by (simp only: of_nat_less_iff)
    then have "p < (2::int) ^ a" using p by simp
    then have "rat_of_int p < of_int (2 ^ a)" by (simp only: of_int_less_iff)
    then show "of_int p < (2::rat) ^ a" by simp
  qed
  have rq: "(2::rat) ^ (b - 1) \<le> of_int q" "of_int q < (2::rat) ^ b"
  proof -
    have "int (2 ^ (b - 1)) \<le> int (nat q)" using bb(1) by (simp only: of_nat_le_iff)
    then have "(2::int) ^ (b - 1) \<le> q" using q by simp
    then have "rat_of_int (2 ^ (b - 1)) \<le> of_int q" by (simp only: of_int_le_iff)
    then show "(2::rat) ^ (b - 1) \<le> of_int q" by simp
    have "int (nat q) < int (2 ^ b)" using bb(2) by (simp only: of_nat_less_iff)
    then have "q < (2::int) ^ b" using q by simp
    then have "rat_of_int q < of_int (2 ^ b)" by (simp only: of_int_less_iff)
    then show "of_int q < (2::rat) ^ b" by simp
  qed
  define k where "k = int a - int b"
  have qpos: "(0::rat) < of_int q" using q by simp
  have up: "x < 2 powi (k + 1)"
  proof -
    have "x * 2 ^ (b - 1) \<le> x * of_int q" using rq(1) assms by (simp add: mult_left_mono)
    also have "\<dots> = of_int p" using x qpos by simp
    also have "\<dots> < 2 ^ a" by (rule rp(2))
    finally have "x * 2 ^ (b - 1) < 2 ^ a" .
    then have "x < 2 ^ a / 2 ^ (b - 1)" by (simp add: pos_less_divide_eq)
    also have "\<dots> = 2 powi (int a - int (b - 1))" by (simp add: power_int_diff)
    also have "int a - int (b - 1) = k + 1" using b1 by (simp add: k_def)
    finally show ?thesis .
  qed
  have lo: "2 powi (k - 1) \<le> x"
  proof -
    have "(2::rat) ^ (a - 1) \<le> of_int p" by (rule rp(1))
    also have "\<dots> = x * of_int q" using x qpos by simp
    also have "\<dots> \<le> x * 2 ^ b" using rq(2) assms by (simp add: mult_left_mono)
    finally have "(2::rat) ^ (a - 1) / 2 ^ b \<le> x" by (simp add: pos_divide_le_eq)
    moreover have "(2::rat) ^ (a - 1) / 2 ^ b = 2 powi (int (a - 1) - int b)"
      by (simp add: power_int_diff)
    moreover have "int (a - 1) - int b = k - 1" using a1 by (simp add: k_def)
    ultimately show ?thesis by simp
  qed
  have il: "ilog2 x = (if 2 powi k \<le> x then k else k - 1)"
    by (simp add: ilog2_def pq a_def b_def k_def Let_def)
  show ?thesis
  proof (cases "2 powi k \<le> x")
    case True
    then show ?thesis using up il by simp
  next
    case False
    then show ?thesis using lo il by simp
  qed
qed

lemma ilog2_eqI:
  assumes "2 powi k \<le> x" "x < 2 powi (k + 1)"
  shows "ilog2 x = k"
proof -
  have pos: "0 < x" using assms(1) by (meson less_le_trans zero_less_numeral zero_less_power_int)
  note b = ilog2_bounds[OF pos]
  have "2 powi k < (2::rat) powi (ilog2 x + 1)" using assms(1) b by linarith
  then have 1: "k < ilog2 x + 1"
    using power_int_increasing[of "ilog2 x + 1" k "2::rat"] by (cases "k < ilog2 x + 1") simp_all
  have "2 powi (ilog2 x) < (2::rat) powi (k + 1)" using assms(2) b by linarith
  then have 2: "ilog2 x < k + 1"
    using power_int_increasing[of "k + 1" "ilog2 x" "2::rat"] by (cases "ilog2 x < k + 1") simp_all
  show ?thesis using 1 2 by linarith
qed

lemma round_half_even_of_int: "round_half_even (of_int n) = n"
  by (simp add: round_half_even_def)

lemma round_half_even_near:
  assumes "of_int n - 1 / 2 < m" "m < of_int n + 1 / 2"
  shows "round_half_even m = n"
proof -
  have "\<lfloor>m\<rfloor> = n \<or> \<lfloor>m\<rfloor> = n - 1" using assms by linarith
  then show ?thesis
  proof
    assume f: "\<lfloor>m\<rfloor> = n"
    then have "m - of_int \<lfloor>m\<rfloor> < 1 / 2" using assms by simp
    then show ?thesis using f by (simp add: round_half_even_def Let_def)
  next
    assume f: "\<lfloor>m\<rfloor> = n - 1"
    then have "1 / 2 < m - of_int \<lfloor>m\<rfloor>" using assms by simp
    then show ?thesis using f by (simp add: round_half_even_def Let_def)
  qed
qed

lemma round_half_even_tie:
  "round_half_even (of_int n + 1 / 2) = (if even n then n else n + 1)"
proof -
  have "\<lfloor>rat_of_int n + 1 / 2\<rfloor> = n" by linarith
  then show ?thesis by (simp add: round_half_even_def Let_def)
qed

lemma to_double_eval:
  assumes "2 powi k \<le> \<bar>x\<bar>" "\<bar>x\<bar> < 2 powi (k + 1)"
    and "e = max (k - 52) (- 1074)"
    and "round_half_even (\<bar>x\<bar> / 2 powi e) = n"
    and "of_int n * 2 powi e < (2::rat) powi 1024"
  shows "to_double x = Fin (sgn x * (of_int n * 2 powi e))"
proof -
  have "0 < \<bar>x\<bar>" using assms(1) by (meson less_le_trans zero_less_numeral zero_less_power_int)
  then have nz: "x \<noteq> 0" by simp
  have "ilog2 \<bar>x\<bar> = k" using assms(1,2) by (rule ilog2_eqI)
  then show ?thesis using nz assms(3,4,5) by (simp add: to_double_def Let_def)
qed

text \<open>Integers up to \<open>2^53\<close> in magnitude are doubles: rounding leaves them as they are.\<close>

lemma to_double_of_int:
  assumes "\<bar>n\<bar> \<le> 2 ^ 53"
  shows "to_double (of_int n) = Fin (of_int n)"
proof (cases "n = 0")
  case True
  then show ?thesis by (simp add: to_double_def)
next
  case False
  define x where "x = \<bar>rat_of_int n\<bar>"
  have x1: "1 \<le> x" using False by (simp add: x_def flip: of_int_abs)
  have x2: "x \<le> 2 ^ 53" using assms unfolding x_def
    by (metis of_int_abs of_int_le_iff of_int_numeral of_int_power)
  define k where "k = ilog2 x"
  have kb: "2 powi k \<le> x" "x < 2 powi (k + 1)"
    using ilog2_bounds[of x] x1 by (simp_all add: k_def)
  have k0: "0 \<le> k"
  proof (rule ccontr)
    assume "\<not> 0 \<le> k"
    then have "k + 1 \<le> 0" by simp
    then have "(2::rat) powi (k + 1) \<le> 2 powi 0" by (intro power_int_increasing) simp_all
    then show False using kb(2) x1 by simp
  qed
  have k53: "k \<le> 53"
  proof (rule ccontr)
    assume "\<not> k \<le> 53"
    then have "54 \<le> k" by simp
    then have "(2::rat) powi 54 \<le> 2 powi k" by (intro power_int_increasing) simp_all
    then show False using kb(1) x2 by simp
  qed
  define e where "e = max (k - 52) (- 1074)"
  have e: "e = k - 52" using k0 by (simp add: e_def)
  have int_m: "\<exists>j. x / 2 powi e = of_int j"
  proof (cases "k = 53")
    case True
    then have "x = 2 ^ 53" using kb(1) x2 by simp
    then have "x / 2 powi e = of_int (2 ^ 52)" using True e by simp
    then show ?thesis by blast
  next
    case False
    then have "e \<le> 0" using k53 e by simp
    then have "x / 2 powi e = x * 2 ^ nat (- e)"
      by (simp add: power_int_def field_simps)
    also have "\<dots> = of_int (\<bar>n\<bar> * 2 ^ nat (- e))" by (simp add: x_def)
    finally show ?thesis by blast
  qed
  then obtain j where j: "x / 2 powi e = of_int j" by blast
  have r: "round_half_even (x / 2 powi e) = j" by (simp add: j round_half_even_of_int)
  have y: "rat_of_int j * 2 powi e = x" using j by (simp add: field_simps)
  have "x < 2 powi 1024" using x2 by simp
  then have "to_double (of_int n) = Fin (sgn (of_int n) * (of_int j * 2 powi e))"
    using to_double_eval[of k "of_int n" e j] kb r y by (simp add: x_def e_def)
  then show ?thesis using y by (simp add: x_def mult_sgn_abs)
qed

lemma to_double_numeral [simp]:
  "numeral w \<le> (2::int) ^ 53 \<Longrightarrow> to_double (numeral w) = Fin (numeral w)"
  using to_double_of_int[of "numeral w"] by simp

lemma to_double_0 [simp]: "to_double 0 = Fin 0"
  by (simp add: to_double_def)

lemma to_double_1 [simp]: "to_double 1 = Fin 1"
  using to_double_of_int[of 1] by simp

lemma to_double_not_NaN [simp]: "to_double x \<noteq> NaN"
  by (simp add: to_double_def Let_def)

lemma to_double_tenth: "to_double (1 / 10) = Fin tenth"
proof -
  have "to_double (1 / 10) = Fin (sgn (1 / 10) * (of_int 7205759403792794 * 2 powi (- 56)))"
  proof (rule to_double_eval[where k = "- 4"])
    show "2 powi (- 4) \<le> \<bar>1 / 10 :: rat\<bar>" by (simp add: power_int_minus)
    show "\<bar>1 / 10 :: rat\<bar> < 2 powi (- 4 + 1)" by (simp add: power_int_minus)
    show "(- 56 :: int) = max (- 4 - 52) (- 1074)" by simp
    show "round_half_even (\<bar>1 / 10\<bar> / 2 powi (- 56)) = 7205759403792794"
      by (rule round_half_even_near) (simp_all add: power_int_minus)
    show "rat_of_int 7205759403792794 * 2 powi (- 56) < 2 powi 1024" by (simp add: power_int_minus)
  qed
  then show ?thesis by (simp add: power_int_minus tenth_def)
qed

lemma js_mul_tenth_3: "js_mul (Fin tenth) (Fin 3) = Fin (1351079888211149 / 4503599627370496)"
proof -
  have "to_double (tenth * 3)
      = Fin (sgn (tenth * 3) * (of_int 5404319552844596 * 2 powi (- 54)))"
  proof (rule to_double_eval[where k = "- 2"])
    show "2 powi (- 2) \<le> \<bar>tenth * 3\<bar>" by (simp add: power_int_minus tenth_def)
    show "\<bar>tenth * 3\<bar> < 2 powi (- 2 + 1)" by (simp add: power_int_minus tenth_def)
    show "(- 54 :: int) = max (- 2 - 52) (- 1074)" by simp
    have "\<bar>tenth * 3\<bar> / 2 powi (- 54) = rat_of_int 5404319552844595 + 1 / 2"
      by (simp add: power_int_minus tenth_def)
    then show "round_half_even (\<bar>tenth * 3\<bar> / 2 powi (- 54)) = 5404319552844596"
      by (simp only: round_half_even_tie) simp
    show "rat_of_int 5404319552844596 * 2 powi (- 54) < 2 powi 1024" by (simp add: power_int_minus)
  qed
  then show ?thesis by (simp add: power_int_minus tenth_def)
qed

lemma js_add_0_drift:
  "js_add (Fin 0) (Fin (1351079888211149 / 4503599627370496))
     = Fin (1351079888211149 / 4503599627370496)"
proof -
  have "to_double (1351079888211149 / 4503599627370496)
      = Fin (sgn (1351079888211149 / 4503599627370496) * (of_int 5404319552844596 * 2 powi (- 54)))"
  proof (rule to_double_eval[where k = "- 2"])
    show "2 powi (- 2) \<le> \<bar>1351079888211149 / 4503599627370496 :: rat\<bar>" by (simp add: power_int_minus)
    show "\<bar>1351079888211149 / 4503599627370496 :: rat\<bar> < 2 powi (- 2 + 1)" by (simp add: power_int_minus)
    show "(- 54 :: int) = max (- 2 - 52) (- 1074)" by simp
    have "\<bar>1351079888211149 / 4503599627370496\<bar> / 2 powi (- 54) = rat_of_int 5404319552844596"
      by (simp add: power_int_minus)
    then show "round_half_even (\<bar>1351079888211149 / 4503599627370496\<bar> / 2 powi (- 54)) = 5404319552844596"
      by (simp only: round_half_even_of_int)
    show "rat_of_int 5404319552844596 * 2 powi (- 54) < 2 powi 1024" by (simp add: power_int_minus)
  qed
  then show ?thesis by (simp add: power_int_minus)
qed

lemma tenth_pos [simp]: "0 \<le> tenth"
  by (simp add: tenth_def)

section \<open>Documents and saves\<close>

lemma doc_assign [simp]: "doc (assign p f d) = f (doc d)"
  by (simp add: assign_def Let_def)

lemma isNew_assign [simp]: "isNew (assign p f d) = isNew d"
  by (simp add: assign_def Let_def)

lemma modifiedPaths_assign:
  "modifiedPaths (assign p f d) =
     (if f (doc d) = doc d then modifiedPaths d else insert p (modifiedPaths d))"
  by (simp add: assign_def Let_def)

lemma doc_timestamps:
  "doc (timestamps now d) =
     (if isNew d then (doc d)\<lparr>createdAt := now, updatedAt := now\<rparr>
      else if modifiedPaths d \<noteq> {} then (doc d)\<lparr>updatedAt := now\<rparr> else doc d)"
  by (simp add: timestamps_def)

lemma modifiedPaths_timestamps [simp]: "modifiedPaths (timestamps now d) = modifiedPaths d"
  by (simp add: timestamps_def)

lemma doc_visit_pre_save:
  "doc (visit_pre_save d) =
     (if ''treatments'' \<in> modifiedPaths d
      then (doc d)\<lparr>totalAmount := reduce_total (treatments (doc d))\<rparr> else doc d)"
  by (simp add: visit_pre_save_def calculateTotalAmount_def)

lemma treatments_pre_save:
  "treatments (doc (pre_save now d)) = map treatment_pre_save (treatments (doc d))"
  by (simp add: pre_save_def doc_visit_pre_save doc_timestamps)

lemma totalAmount_pre_save:
  assumes "''treatments'' \<in> modifiedPaths d \<or> totalAmount (doc d) = reduce_total (treatments (doc d))"
  shows "totalAmount (doc (pre_save now d)) = reduce_total (treatments (doc (pre_save now d)))"
proof (cases "map treatment_pre_save (treatments (doc d)) = treatments (doc d)")
  case True
  then have same: "(doc d)\<lparr>treatments := map treatment_pre_save (treatments (doc d))\<rparr> = doc d"
    by simp
  show ?thesis using assms True same
    by (auto simp add: pre_save_def doc_visit_pre_save doc_timestamps modifiedPaths_assign)
next
  case False
  then have diff: "(doc d)\<lparr>treatments := map treatment_pre_save (treatments (doc d))\<rparr> \<noteq> doc d"
    by (metis visit.select_convs(11) visit.surjective visit.update_convs(11))
  show ?thesis using diff
    by (simp add: pre_save_def doc_visit_pre_save doc_timestamps modifiedPaths_assign)
qed

lemma or_default_zero: "x \<noteq> NaN \<Longrightarrow> or_default x (Fin 0) = x"
  by (cases x) (auto simp add: or_default_def)

lemma reduce_total_foldl:
  "list_all (\<lambda>t. totalPrice t \<noteq> NaN) ts \<Longrightarrow>
   foldl (\<lambda>sum t. js_add sum (or_default (totalPrice t) (Fin 0))) a ts
     = foldl js_add a (map totalPrice ts)"
  by (induction ts arbitrary: a) (simp_all add: or_default_zero)

lemma reduce_total_js_sum:
  "list_all (\<lambda>t. totalPrice t \<noteq> NaN) ts \<Longrightarrow> reduce_total ts = js_sum (map totalPrice ts)"
  by (simp add: reduce_total_def js_sum_def reduce_total_foldl)

lemma js_mul_not_NaN:
  assumes "js_le (Fin 0) u" "js_le (Fin 1) q" "is_finite q"
  shows "js_mul u q \<noteq> NaN"
  using assms by (cases u; cases q) auto

lemma pre_save_no_NaN:
  assumes "list_all validate_treatment ts" "finite_quantities ts"
  shows "list_all (\<lambda>t. totalPrice t \<noteq> NaN) (map treatment_pre_save ts)"
  using assms
  by (induction ts)
     (simp_all add: finite_quantities_def validate_treatment_def treatment_pre_save_def js_mul_not_NaN)

lemma saved_total:
  assumes "validate_visit (doc d)" "finite_quantities (treatments (doc d))"
    and "''treatments'' \<in> modifiedPaths d \<or> totalAmount (doc d) = reduce_total (treatments (doc d))"
  shows "totalAmount (doc (pre_save now d)) = js_sum (map totalPrice (treatments (doc (pre_save now d))))"
proof -
  have "list_all (\<lambda>t. totalPrice t \<noteq> NaN) (treatments (doc (pre_save now d)))"
    using assms(1,2) by (simp add: treatments_pre_save pre_save_no_NaN validate_visit_def)
  then show ?thesis using totalAmount_pre_save[OF assms(3)] by (simp add: reduce_total_js_sum)
qed

lemma update_first_mem:
  "find P xs = Some x \<Longrightarrow> y \<in> set (update_first P (\<lambda>w. y) xs)"
  by (induction xs) (auto split: if_splits)

lemma find_cong_weaker:
  "find (\<lambda>v. P v \<and> Q v) xs = Some x \<Longrightarrow> \<exists>y. find P xs = Some y"
  by (induction xs) (auto split: if_splits)

lemma visit_id_pre_save [simp]: "visit_id (doc (pre_save now d)) = visit_id (doc d)"
  by (simp add: pre_save_def doc_visit_pre_save doc_timestamps)

lemma find_Some_P: "find P xs = Some x \<Longrightarrow> P x"
  by (induction xs) (auto split: if_splits)

text \<open>What a save of a loaded, modified document returns.\<close>

lemma save_loaded:
  assumes "save now d s = (Inr v', s')" "\<not> isNew d"
  shows "validate_visit (doc d) \<and> v' = doc (pre_save now d) \<and>
     s' = s\<lparr>Visit := update_first (\<lambda>w. visit_id w = visit_id (doc d)) (\<lambda>w. v') (Visit s)\<rparr>"
  using assms by (auto simp add: save_def Let_def split: if_splits)

lemma finite_or_default: "is_finite q \<Longrightarrow> is_finite (or_default q (Fin 1))"
  by (simp add: or_default_def)

lemma finite_quantities_update_first:
  "finite_quantities ts \<Longrightarrow> (\<And>t. is_finite (quantity t) \<Longrightarrow> is_finite (quantity (f t))) \<Longrightarrow>
   finite_quantities (update_first P f ts)"
  by (induction ts) (auto simp add: finite_quantities_def)

lemma quantity_update_fields:
  "body_quantity_finite body \<Longrightarrow> is_finite (quantity t) \<Longrightarrow> is_finite (quantity (update_fields body t))"
  by (auto simp add: update_fields_def body_quantity_finite_def Let_def split: option.splits)

lemma doc_calculateTotalAmount:
  "doc (calculateTotalAmount d) = (doc d)\<lparr>totalAmount := reduce_total (treatments (doc d))\<rparr>"
  by (simp add: calculateTotalAmount_def)

lemma isNew_calculateTotalAmount [simp]: "isNew (calculateTotalAmount d) = isNew d"
  by (simp add: calculateTotalAmount_def)

lemma doc_load [simp]: "doc (load v) = v"
  by (simp add: load_def)

lemma isNew_load [simp]: "\<not> isNew (load v)"
  by (simp add: load_def)

lemma doc_push [simp]: "doc (push t d) = (doc d)\<lparr>treatments := treatments (doc d) @ [t]\<rparr>"
  by (simp add: push_def)

lemma isNew_push [simp]: "isNew (push t d) = isNew d"
  by (simp add: push_def)

lemma doc_pull [simp]:
  "doc (pull tid d) = (doc d)\<lparr>treatments := filter (\<lambda>t. treatment_id t \<noteq> tid) (treatments (doc d))\<rparr>"
  by (simp add: pull_def)

lemma isNew_pull [simp]: "isNew (pull tid d) = isNew d"
  by (simp add: pull_def)

lemma finite_quantities_filter: "finite_quantities ts \<Longrightarrow> finite_quantities (filter P ts)"
  by (induction ts) (auto simp add: finite_quantities_def)

lemma save_loaded_ok:
  assumes "validate_visit (doc d)" "\<not> isNew d"
  shows "save now d s = (Inr (doc (pre_save now d)),
     s\<lparr>Visit := update_first (\<lambda>w. visit_id w = visit_id (doc d)) (\<lambda>w. doc (pre_save now d)) (Visit s)\<rparr>)"
  using assms by (simp add: save_def Let_def)

lemma status_pre_save [simp]: "status (doc (pre_save now d)) = status (doc d)"
  by (simp add: pre_save_def doc_visit_pre_save doc_timestamps)

lemma startTime_pre_save [simp]: "startTime (doc (pre_save now d)) = startTime (doc d)"
  by (simp add: pre_save_def doc_visit_pre_save doc_timestamps)

lemma endTime_pre_save [simp]: "endTime (doc (pre_save now d)) = endTime (doc d)"
  by (simp add: pre_save_def doc_visit_pre_save doc_timestamps)

lemma validate_visit_status [simp]:
  "validate_visit (v\<lparr>status := x\<rparr>) = validate_visit v"
  "validate_visit (v\<lparr>startTime := y\<rparr>) = validate_visit v"
  "validate_visit (v\<lparr>endTime := y\<rparr>) = validate_visit v"
  "validate_visit (v\<lparr>paymentStatus := z\<rparr>) = validate_visit v"
  by (simp_all add: validate_visit_def)

lemma consistent_pre_save:
  assumes "consistent_visit v"
  shows "map treatment_pre_save (treatments v) = treatments v"
proof -
  have "list_all (\<lambda>t. totalPrice t = js_mul (unitPrice t) (quantity t)) ts \<Longrightarrow>
      map treatment_pre_save ts = ts" for ts
    by (induction ts) (simp_all add: treatment_pre_save_def)
  then show ?thesis using assms by (simp add: consistent_visit_def priced_def)
qed

lemma payment_outcome:
  assumes f: "find (\<lambda>v. visit_id v = vid) (Visit s) = Some v"
    and c: "consistent_visit v"
  shows "save now (assign ''paymentStatus'' (\<lambda>v. v\<lparr>paymentStatus := p\<rparr>) (load v)) s =
     (Inr (v\<lparr>paymentStatus := p, updatedAt := (if p = paymentStatus v then updatedAt v else now)\<rparr>),
      s\<lparr>Visit := update_first (\<lambda>w. visit_id w = vid)
         (\<lambda>w. v\<lparr>paymentStatus := p, updatedAt := (if p = paymentStatus v then updatedAt v else now)\<rparr>)
         (Visit s)\<rparr>)"
proof -
  have vid: "visit_id v = vid" using find_Some_P[OF f] by simp
  define d where "d = assign ''paymentStatus'' (\<lambda>v. v\<lparr>paymentStatus := p\<rparr>) (load v)"
  have val: "validate_visit (doc d)" using c by (simp add: d_def consistent_visit_def)
  have tr: "treatments (doc d) = treatments v" by (simp add: d_def)
  have same: "(doc d)\<lparr>treatments := map treatment_pre_save (treatments (doc d))\<rparr> = doc d"
    using consistent_pre_save[OF c] by (simp add: tr)
  have mp: "modifiedPaths d = (if p = paymentStatus v then {} else {''paymentStatus''})"
  proof (cases "p = paymentStatus v")
    case True
    then show ?thesis by (simp add: d_def assign_def load_def)
  next
    case False
    then have "v\<lparr>paymentStatus := p\<rparr> \<noteq> v"
      by (metis visit.select_convs(13) visit.surjective visit.update_convs(13))
    then show ?thesis using False by (simp add: d_def assign_def load_def)
  qed
  have "doc (pre_save now d) =
      v\<lparr>paymentStatus := p, updatedAt := (if p = paymentStatus v then updatedAt v else now)\<rparr>"
    using same mp
    by (simp add: pre_save_def doc_visit_pre_save doc_timestamps modifiedPaths_assign d_def)
  then show ?thesis
    using save_loaded_ok[OF val, of now s] vid by (simp add: d_def)
qed

lemma find_not_None: "x \<in> set xs \<Longrightarrow> P x \<Longrightarrow> find P xs \<noteq> None"
  by (auto simp add: find_None_iff)

section \<open>Every save keeps the store consistent\<close>

text \<open>
  A store whose visits are all consistent stays so under every handler: the hypothesis
  \<open>consistent_visit\<close> of the theorems below holds in every store that the handlers
  produce from a consistent one, the empty store for instance.
\<close>

lemma priced_hook: "priced ts \<Longrightarrow> map treatment_pre_save ts = ts"
  by (induction ts) (simp_all add: priced_def treatment_pre_save_def)

lemma doc_pre_save_priced:
  assumes "priced (treatments (doc d))"
  shows "doc (pre_save now d) =
     (let v = (if isNew d then (doc d)\<lparr>createdAt := now, updatedAt := now\<rparr>
               else if modifiedPaths d \<noteq> {} then (doc d)\<lparr>updatedAt := now\<rparr> else doc d)
      in if ''treatments'' \<in> modifiedPaths d
         then v\<lparr>totalAmount := reduce_total (treatments (doc d))\<rparr> else v)"
proof -
  have same: "(doc d)\<lparr>treatments := map treatment_pre_save (treatments (doc d))\<rparr> = doc d"
    using priced_hook[OF assms] by simp
  show ?thesis
    by (simp add: pre_save_def doc_visit_pre_save doc_timestamps modifiedPaths_assign same Let_def)
qed

lemma validate_visit_stamps [simp]:
  "validate_visit (v\<lparr>updatedAt := x\<rparr>) = validate_visit v"
  "validate_visit (v\<lparr>createdAt := x\<rparr>) = validate_visit v"
  by (simp_all add: validate_visit_def)

lemma consistent_after_pre_save:
  assumes val: "validate_visit (doc d)" and pr: "priced (treatments (doc d))"
    and tot: "''treatments'' \<in> modifiedPaths d \<Longrightarrow>
       totalAmount (doc d) = reduce_total (treatments (doc d))"
  shows "consistent_visit (doc (pre_save now d))"
proof -
  define w where "w = (if isNew d then (doc d)\<lparr>createdAt := now, updatedAt := now\<rparr>
      else if modifiedPaths d \<noteq> {} then (doc d)\<lparr>updatedAt := now\<rparr> else doc d)"
  have w: "validate_visit w" "treatments w = treatments (doc d)" "totalAmount w = totalAmount (doc d)"
    using val by (simp_all add: w_def)
  have "doc (pre_save now d) = w"
  proof (cases "''treatments'' \<in> modifiedPaths d")
    case True
    have "w\<lparr>totalAmount := reduce_total (treatments (doc d))\<rparr> = w"
      using tot[OF True] w(3) by simp
    then show ?thesis using True by (simp add: doc_pre_save_priced[OF pr] Let_def w_def)
  next
    case False
    then show ?thesis by (simp add: doc_pre_save_priced[OF pr] Let_def w_def)
  qed
  then show ?thesis using w pr by (simp add: consistent_visit_def priced_def)
qed

lemma list_all_update_first:
  "list_all P xs \<Longrightarrow> P y \<Longrightarrow> list_all P (update_first Q (\<lambda>w. y) xs)"
  by (induction xs) simp_all

lemma save_keeps_consistent:
  assumes st: "list_all consistent_visit (Visit s)"
    and pr: "priced (treatments (doc d))"
    and tot: "''treatments'' \<in> modifiedPaths d \<Longrightarrow>
       totalAmount (doc d) = reduce_total (treatments (doc d))"
  shows "list_all consistent_visit (Visit (snd (save now d s)))"
proof (cases "validate_visit (doc d)")
  case False
  then show ?thesis using st by (simp add: save_def)
next
  case True
  have "consistent_visit (doc (pre_save now d))"
    using consistent_after_pre_save[OF True pr tot] by simp
  then show ?thesis using st True by (simp add: save_def Let_def list_all_update_first)
qed

lemma find_Some_set: "find P xs = Some x \<Longrightarrow> x \<in> set xs"
  by (induction xs) (auto split: if_splits)

lemma found_consistent:
  "list_all consistent_visit (Visit s) \<Longrightarrow> find P (Visit s) = Some v \<Longrightarrow> consistent_visit v"
  using find_Some_set[of P "Visit s" v] by (simp add: list_all_iff)

lemma modifiedPaths_load [simp]: "modifiedPaths (load v) = {}"
  by (simp add: load_def)

lemma treatments_not_marked:
  "p \<noteq> ''treatments'' \<Longrightarrow> ''treatments'' \<in> modifiedPaths (assign p f d) \<longleftrightarrow>
     ''treatments'' \<in> modifiedPaths d"
  by (simp add: modifiedPaths_assign)

lemma priced_update_first:
  "priced ts \<Longrightarrow> (\<And>t. totalPrice (f t) = js_mul (unitPrice (f t)) (quantity (f t))) \<Longrightarrow>
   priced (update_first P f ts)"
  by (induction ts) (simp_all add: priced_def)

lemma priced_update_fields:
  "totalPrice (update_fields body t) = js_mul (unitPrice (update_fields body t)) (quantity (update_fields body t))"
  by (simp add: update_fields_def Let_def)

lemma priced_filter: "priced ts \<Longrightarrow> priced (filter P ts)"
  by (induction ts) (simp_all add: priced_def)

lemma handlers_keep_store_consistent:
  assumes st: "list_all consistent_visit (Visit s)"
  shows "list_all consistent_visit (Visit (snd (post_visit now newId patientId vbody s))) \<and>
    list_all consistent_visit (Visit (snd (startVisit now vid doctorId s))) \<and>
    list_all consistent_visit (Visit (snd (completeVisit now vid doctorId s))) \<and>
    list_all consistent_visit (Visit (snd (cancelVisit now r userId vid s))) \<and>
    list_all consistent_visit (Visit (snd (addTreatment now newId vid doctorId body s))) \<and>
    list_all consistent_visit (Visit (snd (updateTreatment now vid tid doctorId body s))) \<and>
    list_all consistent_visit (Visit (snd (deleteTreatment now vid tid doctorId s))) \<and>
    list_all consistent_visit (Visit (snd (updatePaymentStatus now vid rp s)))"
proof (intro conjI)
  note pv = found_consistent[OF st, unfolded consistent_visit_def]
  show "list_all consistent_visit (Visit (snd (post_visit now newId patientId vbody s)))"
    using st
    by (auto simp add: post_visit_def createVisit_def priced_def
        intro!: save_keeps_consistent split: option.splits)
  show "list_all consistent_visit (Visit (snd (startVisit now vid doctorId s)))"
    using st pv
    by (auto simp add: startVisit_def modifiedPaths_assign
        intro!: save_keeps_consistent split: option.splits if_splits)
  show "list_all consistent_visit (Visit (snd (completeVisit now vid doctorId s)))"
    using st pv
    by (auto simp add: completeVisit_def modifiedPaths_assign
        intro!: save_keeps_consistent split: option.splits if_splits)
  show "list_all consistent_visit (Visit (snd (cancelVisit now r userId vid s)))"
    using st pv
    by (auto simp add: cancelVisit_def modifiedPaths_assign
        intro!: save_keeps_consistent split: option.splits if_splits)
  show "list_all consistent_visit (Visit (snd (updatePaymentStatus now vid rp s)))"
    using st pv
    by (auto simp add: updatePaymentStatus_def modifiedPaths_assign
        intro!: save_keeps_consistent split: option.splits if_splits)
  show "list_all consistent_visit (Visit (snd (addTreatment now newId vid doctorId body s)))"
    using st pv
    by (auto simp add: addTreatment_def Let_def doc_calculateTotalAmount priced_def
        intro!: save_keeps_consistent split: option.splits if_splits)
  show "list_all consistent_visit (Visit (snd (updateTreatment now vid tid doctorId body s)))"
    using st pv
    by (auto simp add: updateTreatment_def Let_def doc_calculateTotalAmount
        priced_update_first priced_update_fields
        intro!: save_keeps_consistent split: option.splits if_splits)
  show "list_all consistent_visit (Visit (snd (deleteTreatment now vid tid doctorId s)))"
    using st pv
    by (auto simp add: deleteTreatment_def doc_calculateTotalAmount priced_filter
        intro!: save_keeps_consistent split: option.splits if_splits)
qed

section \<open>The handlers on the sample data\<close>

lemmas handler_defs = addTreatment_def updateTreatment_def deleteTreatment_def save_def pre_save_def
  assign_def push_def pull_def load_def calculateTotalAmount_def reduce_total_def
  visit_pre_save_def timestamps_def treatment_pre_save_def validate_visit_def
  validate_treatment_def max_length_def categories_def update_fields_def or_default_def
  trim_def is_space_def Let_def

lemmas lifecycle_defs = startVisit_def completeVisit_def cancelVisit_def createVisit_def
  post_visit_def createVisitValidation_def hasActiveVisit_def updatePaymentStatus_def
  parse_payment_def

lemmas sample_defs = sample_store_def sample_visit_def sample_body_def sample_treatment_def
  sample_billed_def billed_store_def sample_users_def sample_repriced_def sample_emptied_def
  sample_visit_body_def sample_created_def

lemma sample_add:
  "addTreatment 5000 7 1 20 (sample_body (Fin 50) (Fin 2)) (sample_store Scheduled)
     = (Inr sample_billed, billed_store)"
  by (simp add: handler_defs sample_defs)

lemma sample_update:
  "updateTreatment 6000 1 7 20 (sample_body (Fin 25) (Fin 3)) billed_store
     = (Inr sample_repriced, \<lparr>Visit = [sample_repriced], User = sample_users\<rparr>)"
  by (simp add: handler_defs sample_defs)

lemma sample_delete:
  "deleteTreatment 7000 1 7 20 billed_store
     = (Inr sample_emptied, \<lparr>Visit = [sample_emptied], User = sample_users\<rparr>)"
  by (simp add: handler_defs sample_defs)

section \<open>The total amount is the sum of the total prices\<close>

lemma validated_not_NaN:
  "list_all validate_treatment ts \<Longrightarrow> list_all (\<lambda>t. totalPrice t \<noteq> NaN) ts"
  by (induction ts) (auto simp add: validate_treatment_def)

lemma saved_total_priced:
  assumes "validate_visit (doc d)" "priced (treatments (doc d))"
    and "''treatments'' \<in> modifiedPaths d \<or> totalAmount (doc d) = reduce_total (treatments (doc d))"
  shows "totalAmount (doc (pre_save now d)) = js_sum (map totalPrice (treatments (doc (pre_save now d))))"
proof -
  have "treatments (doc (pre_save now d)) = treatments (doc d)"
    using priced_hook[OF assms(2)] by (simp add: treatments_pre_save)
  then have "list_all (\<lambda>t. totalPrice t \<noteq> NaN) (treatments (doc (pre_save now d)))"
    using assms(1) by (simp add: validate_visit_def validated_not_NaN)
  then show ?thesis using totalAmount_pre_save[OF assms(3)] by (simp add: reduce_total_js_sum)
qed

text \<open>
  C1. Whenever addTreatment, updateTreatment or deleteTreatment succeeds on the doctor's
  visit, the visit it returns is stored and its \<open>totalAmount\<close> is the sum of the
  \<open>totalPrice\<close> of its treatments (numbers added from left to right, as the reduce of
  calculateTotalAmount adds them). The visit that the request finds is consistent, as the
  handlers leave every visit; or else all quantities are finite numbers (with an infinite
  quantity and a unit price of zero the product is \<open>NaN\<close>, which the reduce counts as
  zero).
\<close>

theorem total_amount_is_sum_after_mutation:
  assumes f: "find (\<lambda>v. visit_id v = vid \<and> doctor v = doctorId) (Visit s) = Some v"
    and h: "consistent_visit v \<or> finite_quantities (treatments v) \<and> body_quantity_finite body"
  shows "(addTreatment now newId vid doctorId body s = (Inr v', s') \<longrightarrow>
            totalAmount v' = js_sum (map totalPrice (treatments v')) \<and> v' \<in> set (Visit s')) \<and>
         (updateTreatment now vid tid doctorId body s = (Inr v', s') \<longrightarrow>
            totalAmount v' = js_sum (map totalPrice (treatments v')) \<and> v' \<in> set (Visit s')) \<and>
         (deleteTreatment now vid tid doctorId s = (Inr v', s') \<longrightarrow>
            totalAmount v' = js_sum (map totalPrice (treatments v')) \<and> v' \<in> set (Visit s'))"
proof -
  have vid: "visit_id v = vid" using find_Some_P[OF f] by simp
  obtain y where y: "find (\<lambda>w. visit_id w = vid) (Visit s) = Some y"
    using find_cong_weaker[OF f] by blast
  have stored: "\<And>d. save now d s = (Inr v', s') \<Longrightarrow> \<not> isNew d \<Longrightarrow> visit_id (doc d) = vid \<Longrightarrow>
      v' \<in> set (Visit s')"
    using update_first_mem[OF y] by (auto dest!: save_loaded)
  have total: "\<And>d. save now d s = (Inr v', s') \<Longrightarrow> \<not> isNew d \<Longrightarrow>
      priced (treatments (doc d)) \<or> finite_quantities (treatments (doc d)) \<Longrightarrow>
      totalAmount (doc d) = reduce_total (treatments (doc d)) \<Longrightarrow>
      totalAmount v' = js_sum (map totalPrice (treatments v'))"
    using saved_total saved_total_priced by (auto dest!: save_loaded)
  have add: "totalAmount v' = js_sum (map totalPrice (treatments v')) \<and> v' \<in> set (Visit s')"
    if a: "addTreatment now newId vid doctorId body s = (Inr v', s')"
  proof -
    define t where "t = \<lparr>treatment_id = newId,
        name = (case req_name body of None \<Rightarrow> [] | Some n \<Rightarrow> trim n),
        description = map_option trim (req_description body),
        quantity = (case req_quantity body of None \<Rightarrow> Fin 1 | Some q \<Rightarrow> or_default q (Fin 1)),
        unitPrice = (case req_unitPrice body of None \<Rightarrow> NaN | Some u \<Rightarrow> u),
        totalPrice = js_mul (case req_unitPrice body of None \<Rightarrow> NaN | Some u \<Rightarrow> u)
           (case req_quantity body of None \<Rightarrow> Fin 1 | Some q \<Rightarrow> or_default q (Fin 1)),
        category = (case req_category body of None \<Rightarrow> ''other''
           | Some c \<Rightarrow> if c = [] then ''other'' else c)\<rparr>"
    define d where "d = calculateTotalAmount (push t (load v))"
    have sv: "save now d s = (Inr v', s')"
      using a f by (simp add: addTreatment_def Let_def d_def t_def split: if_splits)
    have qt: "body_quantity_finite body \<Longrightarrow> is_finite (quantity t)"
      by (simp add: t_def body_quantity_finite_def finite_or_default split: option.splits)
    have pt: "totalPrice t = js_mul (unitPrice t) (quantity t)" by (simp add: t_def)
    have 1: "priced (treatments (doc d)) \<or> finite_quantities (treatments (doc d))"
      using h qt pt
      by (auto simp add: d_def doc_calculateTotalAmount finite_quantities_def priced_def
          consistent_visit_def)
    have 2: "totalAmount (doc d) = reduce_total (treatments (doc d))"
      by (simp add: d_def doc_calculateTotalAmount)
    have 3: "visit_id (doc d) = vid" by (simp add: d_def doc_calculateTotalAmount vid)
    have 4: "\<not> isNew d" by (simp add: d_def)
    show ?thesis using total[OF sv 4 1 2] stored[OF sv 4 3] by simp
  qed
  have upd: "totalAmount v' = js_sum (map totalPrice (treatments v')) \<and> v' \<in> set (Visit s')"
    if a: "updateTreatment now vid tid doctorId body s = (Inr v', s')"
  proof -
    define d where "d = calculateTotalAmount (assign ''treatments'' (\<lambda>v. v\<lparr>treatments :=
        update_first (\<lambda>t. treatment_id t = tid) (update_fields body) (treatments v)\<rparr>) (load v))"
    have sv: "save now d s = (Inr v', s')"
      using a f by (simp add: updateTreatment_def Let_def d_def split: if_splits option.splits)
    have 1: "priced (treatments (doc d)) \<or> finite_quantities (treatments (doc d))"
      using h
      by (auto simp add: d_def doc_calculateTotalAmount finite_quantities_update_first
          quantity_update_fields priced_update_first priced_update_fields consistent_visit_def)
    have 2: "totalAmount (doc d) = reduce_total (treatments (doc d))"
      by (simp add: d_def doc_calculateTotalAmount)
    have 3: "visit_id (doc d) = vid" by (simp add: d_def doc_calculateTotalAmount vid)
    have 4: "\<not> isNew d" by (simp add: d_def)
    show ?thesis using total[OF sv 4 1 2] stored[OF sv 4 3] by simp
  qed
  have del: "totalAmount v' = js_sum (map totalPrice (treatments v')) \<and> v' \<in> set (Visit s')"
    if a: "deleteTreatment now vid tid doctorId s = (Inr v', s')"
  proof -
    define d where "d = calculateTotalAmount (pull tid (load v))"
    have sv: "save now d s = (Inr v', s')"
      using a f by (simp add: deleteTreatment_def d_def split: if_splits)
    have 1: "priced (treatments (doc d)) \<or> finite_quantities (treatments (doc d))"
      using h
      by (auto simp add: d_def doc_calculateTotalAmount finite_quantities_filter priced_filter
          consistent_visit_def)
    have 2: "totalAmount (doc d) = reduce_total (treatments (doc d))"
      by (simp add: d_def doc_calculateTotalAmount)
    have 3: "visit_id (doc d) = vid" by (simp add: d_def doc_calculateTotalAmount vid)
    have 4: "\<not> isNew d" by (simp add: d_def)
    show ?thesis using total[OF sv 4 1 2] stored[OF sv 4 3] by simp
  qed
  show ?thesis using add upd del by blast
qed

theorem total_amount_is_sum_after_mutation_witness:
  "find (\<lambda>v. visit_id v = 1 \<and> doctor v = 20) (Visit billed_store) = Some sample_billed \<and>
   consistent_visit sample_billed \<and>
   finite_quantities (treatments sample_billed) \<and>
   body_quantity_finite (sample_body (Fin 25) (Fin 3)) \<and>
   addTreatment 5000 7 1 20 (sample_body (Fin 50) (Fin 2)) (sample_store Scheduled)
      = (Inr sample_billed, billed_store) \<and>
   totalAmount sample_billed = js_sum (map totalPrice (treatments sample_billed)) \<and>
   totalAmount sample_billed = Fin 100 \<and>
   updateTreatment 6000 1 7 20 (sample_body (Fin 25) (Fin 3)) billed_store
      = (Inr sample_repriced, \<lparr>Visit = [sample_repriced], User = sample_users\<rparr>) \<and>
   totalAmount sample_repriced = js_sum (map totalPrice (treatments sample_repriced)) \<and>
   totalAmount sample_repriced = Fin 75 \<and>
   deleteTreatment 7000 1 7 20 billed_store
      = (Inr sample_emptied, \<lparr>Visit = [sample_emptied], User = sample_users\<rparr>) \<and>
   totalAmount sample_emptied = js_sum (map totalPrice (treatments sample_emptied)) \<and>
   totalAmount sample_emptied = Fin 0"
proof -
  have f0: "find (\<lambda>v. visit_id v = 1 \<and> doctor v = 20) (Visit (sample_store Scheduled))
      = Some (sample_visit Scheduled)"
    by (simp add: sample_defs)
  have c0: "consistent_visit (sample_visit Scheduled)"
    by (simp add: sample_defs consistent_visit_def priced_def validate_visit_def max_length_def)
  have f: "find (\<lambda>v. visit_id v = 1 \<and> doctor v = 20) (Visit billed_store) = Some sample_billed"
    by (simp add: sample_defs)
  have c: "consistent_visit sample_billed"
    by (simp add: sample_defs consistent_visit_def priced_def validate_visit_def
        validate_treatment_def categories_def max_length_def)
  have fq: "finite_quantities (treatments sample_billed)"
    by (simp add: sample_defs finite_quantities_def)
  have bq: "body_quantity_finite (sample_body (Fin 25) (Fin 3))"
    by (simp add: sample_defs body_quantity_finite_def)
  have 1: "totalAmount sample_billed = js_sum (map totalPrice (treatments sample_billed))"
    using total_amount_is_sum_after_mutation[OF f0 disjI1[OF c0], where now = 5000 and newId = 7
        and body = "sample_body (Fin 50) (Fin 2)" and v' = sample_billed and s' = billed_store]
      sample_add by blast
  have 2: "totalAmount sample_repriced = js_sum (map totalPrice (treatments sample_repriced))"
    using total_amount_is_sum_after_mutation[OF f disjI1[OF c], where now = 6000 and tid = 7
        and body = "sample_body (Fin 25) (Fin 3)"
        and v' = sample_repriced and s' = "\<lparr>Visit = [sample_repriced], User = sample_users\<rparr>"]
      sample_update by blast
  have 3: "totalAmount sample_emptied = js_sum (map totalPrice (treatments sample_emptied))"
    using total_amount_is_sum_after_mutation[OF f disjI2[OF conjI[OF fq bq]], where now = 7000
        and tid = 7
        and v' = sample_emptied and s' = "\<lparr>Visit = [sample_emptied], User = sample_users\<rparr>"]
      sample_delete by blast
  have 4: "totalAmount sample_billed = Fin 100" "totalAmount sample_repriced = Fin 75"
    "totalAmount sample_emptied = Fin 0"
    by (simp_all add: sample_defs)
  show ?thesis using f c fq bq sample_add sample_update sample_delete 1 2 3 4 by (intro conjI)
qed

section \<open>Each total price is the unit price times the quantity\<close>

text \<open>
  C2. Whenever addTreatment or updateTreatment succeeds, every treatment of the visit it
  returns has \<open>totalPrice = unitPrice * quantity\<close>, the product of the two numbers. The
  requests carry no total price of their own (\<open>treatment_body\<close> has no such field), and
  the pre-save hook of the treatments recomputes every total price on each save.
\<close>

theorem total_price_is_product_after_write:
  "(addTreatment now newId vid doctorId body s = (Inr v', s') \<longrightarrow>
      list_all (\<lambda>t. totalPrice t = js_mul (unitPrice t) (quantity t)) (treatments v')) \<and>
   (updateTreatment now vid tid doctorId body s = (Inr v', s') \<longrightarrow>
      list_all (\<lambda>t. totalPrice t = js_mul (unitPrice t) (quantity t)) (treatments v'))"
proof -
  have hook: "list_all (\<lambda>t. totalPrice t = js_mul (unitPrice t) (quantity t))
      (map treatment_pre_save ts)" for ts
    by (induction ts) (simp_all add: treatment_pre_save_def)
  have sv: "list_all (\<lambda>t. totalPrice t = js_mul (unitPrice t) (quantity t)) (treatments v')"
    if "save now d s = (Inr v', s')" for d
  proof -
    have "v' = doc (pre_save now d)" using that by (simp add: save_def Let_def split: if_splits)
    then show ?thesis using hook[of "treatments (doc d)"] by (simp add: treatments_pre_save)
  qed
  have a: "\<exists>d. save now d s = (Inr v', s')"
    if h: "addTreatment now newId vid doctorId body s = (Inr v', s')"
  proof (cases "find (\<lambda>v. visit_id v = vid \<and> doctor v = doctorId) (Visit s)")
    case None
    then show ?thesis using h by (simp add: addTreatment_def)
  next
    case (Some v)
    show ?thesis
    proof (cases "status v = Completed \<or> status v = Cancelled")
      case True
      then show ?thesis using h Some by (simp add: addTreatment_def)
    next
      case False
      then show ?thesis using h Some unfolding addTreatment_def Let_def
        by (simp only: option.case if_False) (rule exI)
    qed
  qed
  have u: "\<exists>d. save now d s = (Inr v', s')"
    if h: "updateTreatment now vid tid doctorId body s = (Inr v', s')"
  proof (cases "find (\<lambda>v. visit_id v = vid \<and> doctor v = doctorId) (Visit s)")
    case None
    then show ?thesis using h by (simp add: updateTreatment_def)
  next
    case (Some v)
    show ?thesis
    proof (cases "status v = Completed \<or> status v = Cancelled")
      case True
      then show ?thesis using h Some by (simp add: updateTreatment_def)
    next
      case False
      show ?thesis
      proof (cases "find (\<lambda>t. treatment_id t = tid) (treatments v)")
        case None
        then show ?thesis using h Some False by (simp add: updateTreatment_def)
      next
        case (Some t)
        then show ?thesis using h \<open>find _ (Visit s) = Some v\<close> False unfolding updateTreatment_def Let_def
          by (simp only: option.case if_False) (rule exI)
      qed
    qed
  qed
  show ?thesis using a u sv by blast
qed

theorem total_price_is_product_after_write_witness:
  "addTreatment 5000 7 1 20 (sample_body (Fin 50) (Fin 2)) (sample_store Scheduled)
      = (Inr sample_billed, billed_store) \<and>
   list_all (\<lambda>t. totalPrice t = js_mul (unitPrice t) (quantity t)) (treatments sample_billed) \<and>
   map totalPrice (treatments sample_billed) = [Fin 100] \<and>
   updateTreatment 6000 1 7 20 (sample_body (Fin 25) (Fin 3)) billed_store
      = (Inr sample_repriced, \<lparr>Visit = [sample_repriced], User = sample_users\<rparr>) \<and>
   list_all (\<lambda>t. totalPrice t = js_mul (unitPrice t) (quantity t)) (treatments sample_repriced) \<and>
   map totalPrice (treatments sample_repriced) = [Fin 75]"
proof -
  have 1: "list_all (\<lambda>t. totalPrice t = js_mul (unitPrice t) (quantity t)) (treatments sample_billed)"
    using total_price_is_product_after_write[where now = 5000 and newId = 7 and vid = 1
      and doctorId = 20 and body = "sample_body (Fin 50) (Fin 2)"
      and s = "sample_store Scheduled" and v' = sample_billed and s' = billed_store] sample_add by blast
  have 2: "list_all (\<lambda>t. totalPrice t = js_mul (unitPrice t) (quantity t)) (treatments sample_repriced)"
    using total_price_is_product_after_write[where now = 6000 and tid = 7 and vid = 1
      and doctorId = 20 and body = "sample_body (Fin 25) (Fin 3)" and s = billed_store
      and v' = sample_repriced and s' = "\<lparr>Visit = [sample_repriced], User = sample_users\<rparr>"]
      sample_update by blast
  have 3: "map totalPrice (treatments sample_billed) = [Fin 100]"
    "map totalPrice (treatments sample_repriced) = [Fin 75]"
    by (simp_all add: sample_defs)
  show ?thesis using sample_add sample_update 1 2 3 by blast
qed

section \<open>The ledger is closed once a visit is completed or cancelled\<close>

text \<open>
  C4. When the visit that a treatment request addresses (the doctor's visit with that id)
  is completed or cancelled, addTreatment, updateTreatment and deleteTreatment each answer
  with the invalid-transition error and return the store as it was, so the visit's
  treatments and total amount stay what they were.
\<close>

theorem ledger_closed_when_terminal:
  assumes "find (\<lambda>v. visit_id v = vid \<and> doctor v = doctorId) (Visit s) = Some v"
    and "status v = Completed \<or> status v = Cancelled"
  shows "addTreatment now newId vid doctorId body s = (Inl InvalidTransitionError, s) \<and>
    updateTreatment now vid tid doctorId body s = (Inl InvalidTransitionError, s) \<and>
    deleteTreatment now vid tid doctorId s = (Inl InvalidTransitionError, s)"
  using assms by (auto simp add: addTreatment_def updateTreatment_def deleteTreatment_def)

theorem ledger_closed_when_terminal_witness:
  "find (\<lambda>v. visit_id v = 1 \<and> doctor v = 20) (Visit (sample_store Cancelled))
      = Some (sample_visit Cancelled) \<and>
   status (sample_visit Cancelled) = Cancelled \<and>
   addTreatment 5000 7 1 20 (sample_body (Fin 50) (Fin 2)) (sample_store Cancelled)
      = (Inl InvalidTransitionError, sample_store Cancelled) \<and>
   updateTreatment 5000 1 7 20 (sample_body (Fin 50) (Fin 2)) (sample_store Cancelled)
      = (Inl InvalidTransitionError, sample_store Cancelled) \<and>
   deleteTreatment 5000 1 7 20 (sample_store Cancelled)
      = (Inl InvalidTransitionError, sample_store Cancelled)"
proof -
  have f: "find (\<lambda>v. visit_id v = 1 \<and> doctor v = 20) (Visit (sample_store Cancelled))
      = Some (sample_visit Cancelled)"
    by (simp add: sample_store_def sample_visit_def)
  have c: "status (sample_visit Cancelled) = Completed \<or> status (sample_visit Cancelled) = Cancelled"
    by (simp add: sample_visit_def)
  show ?thesis
    using ledger_closed_when_terminal[OF f c, of 5000 7 "sample_body (Fin 50) (Fin 2)" 7] f
    by (simp add: sample_visit_def)
qed

section \<open>The status transitions\<close>

lemma legal_iff: "legal a b \<longleftrightarrow> spec_legal a b \<or> (a = Scheduled \<and> b = Completed)"
  by (cases a; cases b) simp_all

lemma start_outcome:
  assumes f: "find (\<lambda>v. visit_id v = vid \<and> doctor v = doctorId) (Visit s) = Some v"
    and val: "validate_visit v"
  shows "if legal (status v) InProgress
     then \<exists>v' s'. startVisit now vid doctorId s = (Inr v', s') \<and> status v' = InProgress \<and>
            startTime v' = Some now \<and> v' \<in> set (Visit s')
     else startVisit now vid doctorId s = (Inl InvalidTransitionError, s)"
proof (cases "status v = Scheduled")
  case True
  obtain y where y: "find (\<lambda>w. visit_id w = vid) (Visit s) = Some y"
    using find_cong_weaker[OF f] by blast
  have vid: "visit_id v = vid" using find_Some_P[OF f] by simp
  define d where "d = assign ''startTime'' (\<lambda>v. v\<lparr>startTime := Some now\<rparr>)
      (assign ''status'' (\<lambda>v. v\<lparr>status := InProgress\<rparr>) (load v))"
  have sv: "startVisit now vid doctorId s = save now d s"
    using f True by (simp add: startVisit_def d_def)
  have "validate_visit (doc d)" "\<not> isNew d" "visit_id (doc d) = vid"
    using val vid by (simp_all add: d_def)
  then have "save now d s = (Inr (doc (pre_save now d)),
      s\<lparr>Visit := update_first (\<lambda>w. visit_id w = vid) (\<lambda>w. doc (pre_save now d)) (Visit s)\<rparr>)"
    using save_loaded_ok[of d now s] by simp
  moreover have "status (doc (pre_save now d)) = InProgress" "startTime (doc (pre_save now d)) = Some now"
    by (simp_all add: d_def)
  moreover have "doc (pre_save now d) \<in> set (Visit (s\<lparr>Visit :=
      update_first (\<lambda>w. visit_id w = vid) (\<lambda>w. doc (pre_save now d)) (Visit s)\<rparr>))"
    using update_first_mem[OF y] by simp
  ultimately show ?thesis using True sv by (simp del: doc_assign)
next
  case False
  then have "\<not> legal (status v) InProgress" by (cases "status v") simp_all
  then show ?thesis using f False by (simp add: startVisit_def)
qed

lemma complete_outcome:
  assumes f: "find (\<lambda>v. visit_id v = vid \<and> doctor v = doctorId) (Visit s) = Some v"
    and val: "validate_visit v"
  shows "if legal (status v) Completed
     then \<exists>v' s'. completeVisit now vid doctorId s = (Inr v', s') \<and> status v' = Completed \<and>
            endTime v' = Some now \<and> v' \<in> set (Visit s')
     else completeVisit now vid doctorId s = (Inl InvalidTransitionError, s)"
proof (cases "status v = Completed \<or> status v = Cancelled")
  case False
  obtain y where y: "find (\<lambda>w. visit_id w = vid) (Visit s) = Some y"
    using find_cong_weaker[OF f] by blast
  have vid: "visit_id v = vid" using find_Some_P[OF f] by simp
  define d where "d = assign ''endTime'' (\<lambda>v. v\<lparr>endTime := Some now\<rparr>)
      (assign ''status'' (\<lambda>v. v\<lparr>status := Completed\<rparr>) (load v))"
  have sv: "completeVisit now vid doctorId s = save now d s"
    using f False by (simp add: completeVisit_def d_def)
  have "validate_visit (doc d)" "\<not> isNew d" "visit_id (doc d) = vid"
    using val vid by (simp_all add: d_def)
  then have "save now d s = (Inr (doc (pre_save now d)),
      s\<lparr>Visit := update_first (\<lambda>w. visit_id w = vid) (\<lambda>w. doc (pre_save now d)) (Visit s)\<rparr>)"
    using save_loaded_ok[of d now s] by simp
  moreover have "status (doc (pre_save now d)) = Completed" "endTime (doc (pre_save now d)) = Some now"
    by (simp_all add: d_def)
  moreover have "doc (pre_save now d) \<in> set (Visit (s\<lparr>Visit :=
      update_first (\<lambda>w. visit_id w = vid) (\<lambda>w. doc (pre_save now d)) (Visit s)\<rparr>))"
    using update_first_mem[OF y] by simp
  moreover have "legal (status v) Completed" using False by (cases "status v") simp_all
  ultimately show ?thesis using sv by (simp del: doc_assign)
next
  case True
  then have "\<not> legal (status v) Completed" by (cases "status v") simp_all
  then show ?thesis using f True by (auto simp add: completeVisit_def)
qed

lemma cancel_outcome:
  assumes f: "find (\<lambda>v. visit_id v = vid \<and>
        (if r = Patient then patient v = userId else doctor v = userId)) (Visit s) = Some v"
    and val: "validate_visit v"
    and r: "r = Patient \<or> r = Doctor"
  shows "if legal (status v) Cancelled
     then \<exists>v' s'. cancelVisit now r userId vid s = (Inr v', s') \<and> status v' = Cancelled \<and>
            v' \<in> set (Visit s')
     else cancelVisit now r userId vid s = (Inl InvalidTransitionError, s)"
proof (cases "status v = Completed \<or> status v = Cancelled")
  case False
  obtain y where y: "find (\<lambda>w. visit_id w = vid) (Visit s) = Some y"
    using find_cong_weaker[OF f] by blast
  have vid: "visit_id v = vid" using find_Some_P[OF f] by simp
  define d where "d = assign ''status'' (\<lambda>v. v\<lparr>status := Cancelled\<rparr>) (load v)"
  have sv: "cancelVisit now r userId vid s = save now d s"
    using f False r by (auto simp add: cancelVisit_def d_def)
  have "validate_visit (doc d)" "\<not> isNew d" "visit_id (doc d) = vid"
    using val vid by (simp_all add: d_def)
  then have "save now d s = (Inr (doc (pre_save now d)),
      s\<lparr>Visit := update_first (\<lambda>w. visit_id w = vid) (\<lambda>w. doc (pre_save now d)) (Visit s)\<rparr>)"
    using save_loaded_ok[of d now s] by simp
  moreover have "status (doc (pre_save now d)) = Cancelled"
    by (simp_all add: d_def)
  moreover have "doc (pre_save now d) \<in> set (Visit (s\<lparr>Visit :=
      update_first (\<lambda>w. visit_id w = vid) (\<lambda>w. doc (pre_save now d)) (Visit s)\<rparr>))"
    using update_first_mem[OF y] by simp
  moreover have "legal (status v) Cancelled" using False by (cases "status v") simp_all
  ultimately show ?thesis using sv by (simp del: doc_assign)
next
  case True
  then have "\<not> legal (status v) Cancelled" by (cases "status v") simp_all
  then show ?thesis using f True r by (auto simp add: cancelVisit_def)
qed

text \<open>
  C3, as the specification states it, fails: completeVisit rejects only a completed and a
  cancelled visit, so it completes a scheduled visit, and the pair scheduled, completed is
  not in the table of section 8.
\<close>

theorem complete_from_scheduled_counterexample:
  "completeVisit 5000 1 20 (sample_store Scheduled)
     = (Inr ((sample_visit Scheduled)\<lparr>status := Completed, endTime := Some 5000, updatedAt := 5000\<rparr>),
        \<lparr>Visit = [(sample_visit Scheduled)\<lparr>status := Completed, endTime := Some 5000,
           updatedAt := 5000\<rparr>], User = sample_users\<rparr>) \<and>
   \<not> spec_legal Scheduled Completed"
  by (simp add: lifecycle_defs handler_defs sample_defs)

text \<open>
  C3, amended. For the doctor's visit (for cancelVisit: the visit of the patient or doctor
  who cancels), stored as the schema validates it, each of startVisit, completeVisit and
  cancelVisit succeeds exactly when the pair of the visit's status and the target status is
  in the table scheduled to in_progress, completed or cancelled; in_progress to completed or
  cancelled; nothing from completed or cancelled. On success the stored visit has the
  target status (and the start or end time); otherwise the answer is the invalid-transition
  error and the store is as it was. The table is the one of section 8 with the pair
  scheduled, completed added.
\<close>

theorem transitions_follow_controller_table:
  assumes "find (\<lambda>v. visit_id v = vid \<and> doctor v = doctorId) (Visit s) = Some v"
    and "validate_visit v"
    and "find (\<lambda>v. visit_id v = vid \<and>
        (if r = Patient then patient v = userId else doctor v = userId)) (Visit s) = Some vc"
    and "validate_visit vc"
    and "r = Patient \<or> r = Doctor"
  shows "(if legal (status v) InProgress
      then \<exists>v' s'. startVisit now vid doctorId s = (Inr v', s') \<and> status v' = InProgress \<and>
             startTime v' = Some now \<and> v' \<in> set (Visit s')
      else startVisit now vid doctorId s = (Inl InvalidTransitionError, s)) \<and>
     (if legal (status v) Completed
      then \<exists>v' s'. completeVisit now vid doctorId s = (Inr v', s') \<and> status v' = Completed \<and>
             endTime v' = Some now \<and> v' \<in> set (Visit s')
      else completeVisit now vid doctorId s = (Inl InvalidTransitionError, s)) \<and>
     (if legal (status vc) Cancelled
      then \<exists>v' s'. cancelVisit now r userId vid s = (Inr v', s') \<and> status v' = Cancelled \<and>
             v' \<in> set (Visit s')
      else cancelVisit now r userId vid s = (Inl InvalidTransitionError, s)) \<and>
     (legal a b \<longleftrightarrow> spec_legal a b \<or> (a = Scheduled \<and> b = Completed))"
  using start_outcome[OF assms(1,2)] complete_outcome[OF assms(1,2)] cancel_outcome[OF assms(3,4,5)]
    legal_iff[of a b]
  by (intro conjI)

theorem transitions_follow_controller_table_witness:
  "find (\<lambda>v. visit_id v = 1 \<and> doctor v = 20) (Visit (sample_store Scheduled))
      = Some (sample_visit Scheduled) \<and>
   validate_visit (sample_visit Scheduled) \<and>
   find (\<lambda>v. visit_id v = 1 \<and> (if Patient = Patient then patient v = 10 else doctor v = 10))
      (Visit (sample_store Scheduled)) = Some (sample_visit Scheduled) \<and>
   (\<exists>v' s'. startVisit 5000 1 20 (sample_store Scheduled) = (Inr v', s') \<and>
      status v' = InProgress \<and> startTime v' = Some 5000 \<and> v' \<in> set (Visit s')) \<and>
   (\<exists>v' s'. completeVisit 5000 1 20 (sample_store Scheduled) = (Inr v', s') \<and>
      status v' = Completed \<and> endTime v' = Some 5000 \<and> v' \<in> set (Visit s')) \<and>
   (\<exists>v' s'. cancelVisit 5000 Patient 10 1 (sample_store Scheduled) = (Inr v', s') \<and>
      status v' = Cancelled \<and> v' \<in> set (Visit s')) \<and>
   startVisit 5000 1 20 (sample_store Completed) = (Inl InvalidTransitionError, sample_store Completed) \<and>
   completeVisit 5000 1 20 (sample_store Completed) = (Inl InvalidTransitionError, sample_store Completed) \<and>
   cancelVisit 5000 Patient 10 1 (sample_store Completed)
      = (Inl InvalidTransitionError, sample_store Completed)"
proof -
  have f: "find (\<lambda>v. visit_id v = 1 \<and> doctor v = 20) (Visit (sample_store st)) = Some (sample_visit st)"
    for st by (simp add: sample_defs)
  have fc: "find (\<lambda>v. visit_id v = 1 \<and> (if Patient = Patient then patient v = 10 else doctor v = 10))
      (Visit (sample_store st)) = Some (sample_visit st)" for st
    by (simp add: sample_defs)
  have val: "validate_visit (sample_visit st)" for st
    by (simp add: sample_defs validate_visit_def max_length_def)
  have st: "status (sample_visit st) = st" for st by (simp add: sample_defs)
  have r: "Patient = Patient \<or> Patient = Doctor" by simp
  note ok = transitions_follow_controller_table[OF f[of Scheduled] val[of Scheduled]
      fc[of Scheduled] val[of Scheduled] r, where now = 5000 and a = Scheduled and b = Completed]
  note no = transitions_follow_controller_table[OF f[of Completed] val[of Completed]
      fc[of Completed] val[of Completed] r, where now = 5000 and a = Scheduled and b = Completed]
  have 1: "\<exists>v' s'. startVisit 5000 1 20 (sample_store Scheduled) = (Inr v', s') \<and>
      status v' = InProgress \<and> startTime v' = Some 5000 \<and> v' \<in> set (Visit s')"
    using ok by (simp add: st)
  have 2: "\<exists>v' s'. completeVisit 5000 1 20 (sample_store Scheduled) = (Inr v', s') \<and>
      status v' = Completed \<and> endTime v' = Some 5000 \<and> v' \<in> set (Visit s')"
    using ok by (simp add: st)
  have 3: "\<exists>v' s'. cancelVisit 5000 Patient 10 1 (sample_store Scheduled) = (Inr v', s') \<and>
      status v' = Cancelled \<and> v' \<in> set (Visit s')"
    using ok by (simp add: st)
  have 4: "startVisit 5000 1 20 (sample_store Completed)
      = (Inl InvalidTransitionError, sample_store Completed)"
    "completeVisit 5000 1 20 (sample_store Completed)
      = (Inl InvalidTransitionError, sample_store Completed)"
    "cancelVisit 5000 Patient 10 1 (sample_store Completed)
      = (Inl InvalidTransitionError, sample_store Completed)"
    using no by (simp_all add: st)
  show ?thesis using 1 2 3 4 f[of Scheduled] fc[of Scheduled] val[of Scheduled]
    by (intro conjI)
qed

section \<open>Creating a visit\<close>

text \<open>
  C9. The route that creates a visit answers with the validation error when the scheduled
  date lies before the clock reading; with the conflict error when the request is valid, the
  doctor exists and is active, and one of the doctor's visits is scheduled or in progress;
  and when it succeeds the visit it returns is scheduled, has a total amount of 0, no
  treatments and a pending payment status, and is appended to the store.
\<close>

theorem create_visit_outcomes:
  "(req_scheduledDate body < now \<longrightarrow>
      post_visit now newId patientId body s = (Inl ValidationError, s)) \<and>
   (createVisitValidation now body \<and>
    find (\<lambda>u. user_id u = req_doctorId body \<and> user_role u = Doctor \<and> isActive u) (User s) = Some d \<and>
    v \<in> set (Visit s) \<and> doctor v = req_doctorId body \<and>
    (status v = Scheduled \<or> status v = InProgress) \<longrightarrow>
      post_visit now newId patientId body s = (Inl ConflictError, s)) \<and>
   (post_visit now newId patientId body s = (Inr v', s') \<longrightarrow>
      status v' = Scheduled \<and> totalAmount v' = Fin 0 \<and> paymentStatus v' = Pending \<and>
      treatments v' = [] \<and> visit_id v' = newId \<and> patient v' = patientId \<and>
      doctor v' = req_doctorId body \<and> scheduledDate v' = req_scheduledDate body \<and>
      s' = s\<lparr>Visit := Visit s @ [v']\<rparr>)"
proof (intro conjI impI)
  show "post_visit now newId patientId body s = (Inl ValidationError, s)"
    if "req_scheduledDate body < now"
    using that by (simp add: post_visit_def createVisitValidation_def)
  show "post_visit now newId patientId body s = (Inl ConflictError, s)"
    if h: "createVisitValidation now body \<and>
      find (\<lambda>u. user_id u = req_doctorId body \<and> user_role u = Doctor \<and> isActive u) (User s) = Some d \<and>
      v \<in> set (Visit s) \<and> doctor v = req_doctorId body \<and>
      (status v = Scheduled \<or> status v = InProgress)"
  proof -
    have "hasActiveVisit s (req_doctorId body)"
      unfolding hasActiveVisit_def using h
      by (intro find_not_None[of v]) simp_all
    then show ?thesis using h by (simp add: post_visit_def createVisit_def)
  qed
  assume ok: "post_visit now newId patientId body s = (Inr v', s')"
  define d0 where "d0 = \<lparr>doc = \<lparr>visit_id = newId, patient = patientId, doctor = req_doctorId body,
       status = Scheduled, scheduledDate = req_scheduledDate body,
       startTime = None, endTime = None,
       chiefComplaint = map_option trim (req_chiefComplaint body),
       diagnosis = None, notes = None, treatments = [], totalAmount = Fin 0,
       paymentStatus = Pending, createdAt = now, updatedAt = now\<rparr>,
     isNew = True, modifiedPaths = {}\<rparr>"
  have sv: "save now d0 s = (Inr v', s')"
    using ok by (simp add: post_visit_def createVisit_def d0_def split: if_splits option.splits)
  have n: "isNew d0" by (simp add: d0_def)
  have v': "v' = doc (pre_save now d0)" and s': "s' = s\<lparr>Visit := Visit s @ [v']\<rparr>"
    using sv n by (auto simp add: save_def Let_def split: if_splits)
  have "doc (pre_save now d0) = doc d0"
    by (simp add: pre_save_def doc_visit_pre_save doc_timestamps modifiedPaths_assign d0_def
        treatment_pre_save_def assign_def)
  then have eq: "v' = doc d0" using v' by simp
  show "status v' = Scheduled" "totalAmount v' = Fin 0" "paymentStatus v' = Pending"
    "treatments v' = []" "visit_id v' = newId" "patient v' = patientId"
    "doctor v' = req_doctorId body" "scheduledDate v' = req_scheduledDate body"
    by (simp_all add: eq d0_def)
  show "s' = s\<lparr>Visit := Visit s @ [v']\<rparr>" by (rule s')
qed

theorem create_visit_outcomes_witness:
  "req_scheduledDate (sample_visit_body 4000) < 5000 \<and>
   post_visit 5000 3 10 (sample_visit_body 4000) (sample_store Completed)
     = (Inl ValidationError, sample_store Completed) \<and>
   createVisitValidation 5000 (sample_visit_body 9000) \<and>
   sample_visit InProgress \<in> set (Visit (sample_store InProgress)) \<and>
   post_visit 5000 3 10 (sample_visit_body 9000) (sample_store InProgress)
     = (Inl ConflictError, sample_store InProgress) \<and>
   post_visit 5000 3 10 (sample_visit_body 9000) (sample_store Completed)
     = (Inr sample_created, \<lparr>Visit = [sample_visit Completed, sample_created], User = sample_users\<rparr>) \<and>
   status sample_created = Scheduled \<and> totalAmount sample_created = Fin 0 \<and>
   paymentStatus sample_created = Pending"
proof -
  have 1: "req_scheduledDate (sample_visit_body 4000) < 5000"
    by (simp add: sample_visit_body_def)
  have 2: "post_visit 5000 3 10 (sample_visit_body 4000) (sample_store Completed)
     = (Inl ValidationError, sample_store Completed)"
    using create_visit_outcomes[where body = "sample_visit_body 4000" and now = 5000
        and newId = 3 and patientId = 10 and s = "sample_store Completed"] 1
    by blast
  have 3: "createVisitValidation 5000 (sample_visit_body 9000)"
    by (simp add: sample_visit_body_def createVisitValidation_def max_length_def trim_def is_space_def)
  have 4: "find (\<lambda>u. user_id u = req_doctorId (sample_visit_body 9000) \<and> user_role u = Doctor \<and> isActive u)
      (User (sample_store InProgress)) = Some (sample_users ! 2)"
    by (simp add: sample_defs)
  have 5: "sample_visit InProgress \<in> set (Visit (sample_store InProgress))"
    "doctor (sample_visit InProgress) = req_doctorId (sample_visit_body 9000)"
    "status (sample_visit InProgress) = Scheduled \<or> status (sample_visit InProgress) = InProgress"
    by (simp_all add: sample_defs)
  have 6: "post_visit 5000 3 10 (sample_visit_body 9000) (sample_store InProgress)
     = (Inl ConflictError, sample_store InProgress)"
    using create_visit_outcomes[where body = "sample_visit_body 9000" and now = 5000
        and newId = 3 and patientId = 10 and s = "sample_store InProgress"
        and v = "sample_visit InProgress" and d = "sample_users ! 2"] 3 4 5
    by blast
  have 7: "post_visit 5000 3 10 (sample_visit_body 9000) (sample_store Completed)
     = (Inr sample_created, \<lparr>Visit = [sample_visit Completed, sample_created], User = sample_users\<rparr>)"
    by (simp add: lifecycle_defs handler_defs sample_defs)
  have 8: "status sample_created = Scheduled \<and> totalAmount sample_created = Fin 0 \<and>
      paymentStatus sample_created = Pending"
    using create_visit_outcomes[where body = "sample_visit_body 9000" and now = 5000
        and newId = 3 and patientId = 10 and s = "sample_store Completed" and v' = sample_created
        and s' = "\<lparr>Visit = [sample_visit Completed, sample_created], User = sample_users\<rparr>"] 7
    by blast
  show ?thesis using 1 2 3 5(1) 6 7 8 by (intro conjI) simp_all
qed

section \<open>The payment status\<close>

text \<open>
  C10. updatePaymentStatus answers with the validation error for every payment status that
  is not one of pending, partial and paid, and with the not-found error when no visit has
  the id; the store is as it was in both cases. For a stored visit as \<open>save\<close> writes them
  it succeeds whatever the status of the visit, completed and cancelled included, and
  changes the payment status and, when that differs from the stored one, \<open>updatedAt\<close>;
  nothing else.
\<close>

theorem payment_status_update:
  "(Option.bind rp parse_payment = None \<longrightarrow>
      updatePaymentStatus now vid rp s = (Inl ValidationError, s)) \<and>
   (Option.bind rp parse_payment = Some p \<and> find (\<lambda>v. visit_id v = vid) (Visit s) = None \<longrightarrow>
      updatePaymentStatus now vid rp s = (Inl NotFoundError, s)) \<and>
   (Option.bind rp parse_payment = Some p \<and> find (\<lambda>v. visit_id v = vid) (Visit s) = Some v \<and>
      consistent_visit v \<longrightarrow>
      updatePaymentStatus now vid rp s =
        (Inr (v\<lparr>paymentStatus := p, updatedAt := (if p = paymentStatus v then updatedAt v else now)\<rparr>),
         s\<lparr>Visit := update_first (\<lambda>w. visit_id w = vid)
            (\<lambda>w. v\<lparr>paymentStatus := p, updatedAt := (if p = paymentStatus v then updatedAt v else now)\<rparr>)
            (Visit s)\<rparr>)) \<and>
   (Option.bind rp parse_payment \<noteq> None \<longleftrightarrow> rp \<in> {Some ''pending'', Some ''partial'', Some ''paid''})"
proof (intro conjI impI)
  show "Option.bind rp parse_payment = None \<Longrightarrow>
      updatePaymentStatus now vid rp s = (Inl ValidationError, s)"
    by (simp add: updatePaymentStatus_def)
  show "Option.bind rp parse_payment = Some p \<and> find (\<lambda>v. visit_id v = vid) (Visit s) = None \<Longrightarrow>
      updatePaymentStatus now vid rp s = (Inl NotFoundError, s)"
    by (simp add: updatePaymentStatus_def)
  show "Option.bind rp parse_payment = Some p \<and> find (\<lambda>v. visit_id v = vid) (Visit s) = Some v \<and>
      consistent_visit v \<Longrightarrow>
      updatePaymentStatus now vid rp s =
        (Inr (v\<lparr>paymentStatus := p, updatedAt := (if p = paymentStatus v then updatedAt v else now)\<rparr>),
         s\<lparr>Visit := update_first (\<lambda>w. visit_id w = vid)
            (\<lambda>w. v\<lparr>paymentStatus := p, updatedAt := (if p = paymentStatus v then updatedAt v else now)\<rparr>)
            (Visit s)\<rparr>)"
    using payment_outcome[of vid s v now p] by (simp add: updatePaymentStatus_def)
  show "Option.bind rp parse_payment \<noteq> None \<longleftrightarrow> rp \<in> {Some ''pending'', Some ''partial'', Some ''paid''}"
    by (cases rp) (auto simp add: parse_payment_def)
qed

theorem payment_status_update_witness:
  "Option.bind (Some ''paid'') parse_payment = Some Paid \<and>
   find (\<lambda>v. visit_id v = 1) (Visit (sample_store Completed)) = Some (sample_visit Completed) \<and>
   consistent_visit (sample_visit Completed) \<and>
   updatePaymentStatus 5000 1 (Some ''paid'') (sample_store Completed)
     = (Inr ((sample_visit Completed)\<lparr>paymentStatus := Paid, updatedAt := 5000\<rparr>),
        \<lparr>Visit = [(sample_visit Completed)\<lparr>paymentStatus := Paid, updatedAt := 5000\<rparr>],
         User = sample_users\<rparr>) \<and>
   updatePaymentStatus 5000 1 (Some ''partial'') (sample_store Cancelled)
     = (Inr ((sample_visit Cancelled)\<lparr>paymentStatus := Partial, updatedAt := 5000\<rparr>),
        \<lparr>Visit = [(sample_visit Cancelled)\<lparr>paymentStatus := Partial, updatedAt := 5000\<rparr>],
         User = sample_users\<rparr>) \<and>
   Option.bind (Some ''refunded'') parse_payment = None \<and>
   updatePaymentStatus 5000 1 (Some ''refunded'') (sample_store Completed)
     = (Inl ValidationError, sample_store Completed) \<and>
   find (\<lambda>v. visit_id v = 99) (Visit (sample_store Completed)) = None \<and>
   updatePaymentStatus 5000 99 (Some ''paid'') (sample_store Completed)
     = (Inl NotFoundError, sample_store Completed)"
proof -
  have p1: "Option.bind (Some ''paid'') parse_payment = Some Paid"
    and p2: "Option.bind (Some ''partial'') parse_payment = Some Partial"
    and p3: "Option.bind (Some ''refunded'') parse_payment = None"
    by (simp_all add: parse_payment_def)
  have f: "find (\<lambda>v. visit_id v = 1) (Visit (sample_store st)) = Some (sample_visit st)" for st
    by (simp add: sample_defs)
  have nf: "find (\<lambda>v. visit_id v = 99) (Visit (sample_store Completed)) = None"
    by (simp add: sample_defs)
  have c: "consistent_visit (sample_visit st)" for st
    by (simp add: sample_defs consistent_visit_def priced_def validate_visit_def max_length_def)
  have 1: "updatePaymentStatus 5000 1 (Some ''paid'') (sample_store Completed)
     = (Inr ((sample_visit Completed)\<lparr>paymentStatus := Paid, updatedAt := 5000\<rparr>),
        \<lparr>Visit = [(sample_visit Completed)\<lparr>paymentStatus := Paid, updatedAt := 5000\<rparr>],
         User = sample_users\<rparr>)"
    using payment_status_update[where rp = "Some ''paid''" and p = Paid and vid = 1
        and s = "sample_store Completed" and v = "sample_visit Completed" and now = 5000]
      p1 f[of Completed] c[of Completed]
    by (simp add: sample_defs)
  have 2: "updatePaymentStatus 5000 1 (Some ''partial'') (sample_store Cancelled)
     = (Inr ((sample_visit Cancelled)\<lparr>paymentStatus := Partial, updatedAt := 5000\<rparr>),
        \<lparr>Visit = [(sample_visit Cancelled)\<lparr>paymentStatus := Partial, updatedAt := 5000\<rparr>],
         User = sample_users\<rparr>)"
    using payment_status_update[where rp = "Some ''partial''" and p = Partial and vid = 1
        and s = "sample_store Cancelled" and v = "sample_visit Cancelled" and now = 5000]
      p2 f[of Cancelled] c[of Cancelled]
    by (simp add: sample_defs)
  have 3: "updatePaymentStatus 5000 1 (Some ''refunded'') (sample_store Completed)
     = (Inl ValidationError, sample_store Completed)"
    using payment_status_update[where rp = "Some ''refunded''" and vid = 1
        and s = "sample_store Completed" and now = 5000] p3
    by blast
  have 4: "updatePaymentStatus 5000 99 (Some ''paid'') (sample_store Completed)
     = (Inl NotFoundError, sample_store Completed)"
    using payment_status_update[where rp = "Some ''paid''" and p = Paid and vid = 99
        and s = "sample_store Completed" and now = 5000] p1 nf
    by blast
  show ?thesis using p1 p3 f[of Completed] nf c[of Completed] 1 2 3 4 by (intro conjI)
qed

section \<open>The finance search\<close>

lemmas finance_defs = searchVisits_def filtered_rows_def lookup_rows_def match_query_def
  sort_field_def ascending_def field_def projected_def opt_date_def opt_string_def
  sort_key_of_def group_stats_def page_of_def limit_of_def literal_engine_def literal_regex_def
  operators_def stable_sort_def reverse_sort_def lower_def js_sum_def or_default_def
  page_visits_def spec_statistics_def Let_def

lemmas finance_sample_defs = sample_defs sample_query_def amount_query_def amount_pages_def
  finance_store_def bob_row_def alice_row_def

lemma ordered_sublist:
  "ordered asc (map k out) \<Longrightarrow> ordered asc (map k (take n (drop m out)))"
  by (auto simp add: ordered_def sorted_wrt_rev take_map[symmetric] drop_map[symmetric]
      intro: sorted_wrt_take sorted_wrt_drop)

lemma sorted_unique:
  fixes ks :: "('a::linorder) list"
  assumes "mset ks = mset ks'" "sorted ks" "sorted ks'"
  shows "ks = ks'"
  using properties_for_sort[OF assms(1) assms(2)] properties_for_sort[OF refl assms(3)] by simp

lemma ordered_unique:
  assumes "mset ks = mset ks'" "ordered asc ks" "ordered asc ks'"
  shows "ks = ks'"
proof (cases asc)
  case True
  then show ?thesis using assms sorted_unique[of ks ks'] by (simp add: ordered_def)
next
  case False
  then have "rev ks = rev ks'" using assms sorted_unique[of "rev ks" "rev ks'"]
    by (simp add: ordered_def)
  then show ?thesis by simp
qed

lemma sorts_by_keys:
  assumes "sorts_by key asc rows out1" "sorts_by key asc rows out2"
  shows "map (sort_key_of key) out1 = map (sort_key_of key) out2"
proof -
  have "mset out1 = mset out2" using assms by (simp add: sorts_by_def)
  then have "mset (map (sort_key_of key) out1) = mset (map (sort_key_of key) out2)"
    by simp
  moreover have "ordered asc (map (sort_key_of key) out1)" "ordered asc (map (sort_key_of key) out2)"
    using assms by (simp_all add: sorts_by_def)
  ultimately show ?thesis by (rule ordered_unique)
qed

lemma sorts_by_unique:
  assumes 1: "sorts_by key asc rows out1" and 2: "sorts_by key asc rows out2"
    and d: "distinct (map (sort_key_of key) rows)"
  shows "out1 = out2"
proof -
  have inj: "inj_on (sort_key_of key) (set rows)" using d by (simp add: distinct_map)
  have s: "set out1 = set rows" "set out2 = set rows"
    using 1 2 by (auto simp add: sorts_by_def dest: mset_eq_setD)
  have "inj_on (sort_key_of key) (set out1 \<union> set out2)" using inj s by simp
  then show ?thesis using sorts_by_keys[OF 1 2] by (simp add: inj_on_map_eq_map)
qed

lemma stable_sort_contract: "sort_contract stable_sort"
  by (simp add: sort_contract_def stable_sort_def sorts_by_def ordered_def rev_map
      split: option.splits)

lemma contract_sorts:
  assumes "sort_contract srt" "field path = Some key"
  shows "\<exists>out. srt path asc rows = Some out \<and> sorts_by key asc rows out"
proof -
  have "case field path of None \<Rightarrow> True
     | Some key \<Rightarrow> (case srt path asc rows of None \<Rightarrow> False | Some out \<Rightarrow> sorts_by key asc rows out)"
    using assms(1) unfolding sort_contract_def by blast
  then show ?thesis using assms(2) by (simp split: option.splits)
qed

lemma reverse_sort_contract: "sort_contract reverse_sort"
proof -
  have "case reverse_sort path asc rows of None \<Rightarrow> False | Some out \<Rightarrow> sorts_by key asc rows out"
    if f: "field path = Some key" for path key asc rows
  proof -
    obtain out where "stable_sort path asc (rev rows) = Some out" "sorts_by key asc (rev rows) out"
      using contract_sorts[OF stable_sort_contract f] by blast
    then show ?thesis by (simp add: reverse_sort_def sorts_by_def)
  qed
  then show ?thesis by (simp add: sort_contract_def split: option.splits)
qed

lemma match_query_page [simp]: "match_query (q\<lparr>q_page := p\<rparr>) = match_query q"
  by (rule ext) (simp add: match_query_def)

lemma filtered_rows_page [simp]:
  "filtered_rows eng (q\<lparr>q_page := p\<rparr>) s = filtered_rows eng q s"
  by (simp add: filtered_rows_def split: option.splits)

lemma name_filter_sort [simp]: "name_filter (eng\<lparr>sort_stage := x\<rparr>) n = name_filter eng n"
  by (cases "(eng, n)" rule: name_filter.cases) simp_all

lemma filtered_rows_sort [simp]:
  "filtered_rows (eng\<lparr>sort_stage := x\<rparr>) q s = filtered_rows eng q s"
  by (simp add: filtered_rows_def split: option.splits)

lemma group_stats_sort [simp]: "group_stats (eng\<lparr>sort_stage := x\<rparr>) vs = group_stats eng vs"
  by (simp add: group_stats_def)

lemma sort_field_page [simp]: "sort_field (q\<lparr>q_page := p\<rparr>) = sort_field q"
  by (simp add: sort_field_def)

lemma ascending_page [simp]: "ascending (q\<lparr>q_page := p\<rparr>) = ascending q"
  by (simp add: ascending_def)

lemma limit_of_page [simp]: "limit_of (q\<lparr>q_page := p\<rparr>) = limit_of q"
  by (simp add: limit_of_def)

lemma page_of_page [simp]: "page_of (q\<lparr>q_page := Some p\<rparr>) = p"
  by (simp add: page_of_def)

lemma search_answer:
  assumes "searchVisits eng q s = Inr r"
  shows "\<exists>rows out. filtered_rows eng q s = Some rows \<and>
     sort_stage eng (sort_field q) (ascending q) rows = Some out \<and>
     visits r = take (nat (limit_of q)) (drop (nat ((page_of q - 1) * limit_of q)) out)"
  using assms by (auto simp add: searchVisits_def Let_def split: if_splits option.splits)




lemma sample_rows:
  "filtered_rows literal_engine date_pages finance_store = Some [bob_row, alice_row]"
  "filtered_rows literal_engine amount_pages finance_store = Some [bob_row, alice_row]"
  "filtered_rows literal_engine amount_query finance_store = Some [bob_row, alice_row]"
  "filtered_rows literal_engine sample_query finance_store = Some [bob_row, alice_row]"
  by (simp_all add: finance_defs finance_sample_defs date_pages_def)

text \<open>
  A search with a well-formed \<open>visitId\<close> finds no visit, the visit with that id included:
  the id in the pipeline is a string.
\<close>

lemma search_by_id:
  "searchVisits literal_engine (sample_query\<lparr>q_visitId := GoodId 1\<rparr>) finance_store
     = Inr \<lparr>visits_count = 0, total = 0, page = 1, pages = 0,
          statistics = \<lparr>totalRevenue = Fin 0, completedVisits = 0, pendingPayments = 0,
            partialPayments = 0, paidVisits = 0\<rparr>,
          visits = []\<rparr>"
  by (simp add: finance_defs finance_sample_defs)

text \<open>
  C5. The specification computes the statistics over the rows that pass every filter, the
  name filters included. The statistics pipeline of searchVisits starts from \<open>query\<close> alone:
  on the two completed visits of \<open>finance_store\<close>, a search for the patient name "ali"
  finds one row (\<open>total = 1\<close>, Alice's visit of 10) and reports the statistics of both
  visits (revenue 30, two completed visits), where the rows found give revenue 10 and one
  completed visit.
\<close>

theorem statistics_ignore_name_filters:
  "map_sum id (\<lambda>r. (total r, statistics r))
     (searchVisits literal_engine (sample_query\<lparr>q_patientName := Some ''ali''\<rparr>) finance_store)
   = Inr (1, \<lparr>totalRevenue = Fin 30, completedVisits = 2, pendingPayments = 1,
        partialPayments = 0, paidVisits = 1\<rparr>) \<and>
   spec_statistics literal_engine (sample_query\<lparr>q_patientName := Some ''ali''\<rparr>) finance_store
   = Some \<lparr>totalRevenue = Fin 10, completedVisits = 1, pendingPayments = 1,
        partialPayments = 0, paidVisits = 0\<rparr>"
  by (simp add: finance_defs finance_sample_defs)




text \<open>
  C7, as the specification states it, fails: the sort stage has the requested key and no
  other, so nothing orders two rows with the same scheduled date. A call whose sort keeps
  them in the order of the pipeline returns visit 2 before visit 1, which is not the
  ascending order of the ids; a call whose sort takes them in the other order returns
  visit 1 before visit 2, so two calls with the same inputs differ. Both sorts meet the
  contract of the store.
\<close>

theorem ties_not_ordered_by_id_counterexample:
  "sort_contract stable_sort \<and> sort_contract reverse_sort \<and>
   sort_field sample_query = ''scheduledDate'' \<and>
   scheduledDate (row_visit bob_row) = scheduledDate (row_visit alice_row) \<and>
   visit_id (row_visit bob_row) = 2 \<and> visit_id (row_visit alice_row) = 1 \<and>
   (\<exists>r. searchVisits (literal_engine\<lparr>sort_stage := stable_sort\<rparr>) sample_query finance_store = Inr r \<and>
        visits r = [bob_row, alice_row]) \<and>
   (\<exists>r. searchVisits (literal_engine\<lparr>sort_stage := reverse_sort\<rparr>) sample_query finance_store = Inr r \<and>
        visits r = [alice_row, bob_row])"
proof (intro conjI)
  show "sort_contract stable_sort" by (rule stable_sort_contract)
  show "sort_contract reverse_sort" by (rule reverse_sort_contract)
  show "sort_field sample_query = ''scheduledDate''" by (simp add: sort_field_def sample_query_def)
  show "scheduledDate (row_visit bob_row) = scheduledDate (row_visit alice_row)"
    by (simp add: finance_sample_defs)
  show "visit_id (row_visit bob_row) = 2" "visit_id (row_visit alice_row) = 1"
    by (simp_all add: finance_sample_defs)
  show "\<exists>r. searchVisits (literal_engine\<lparr>sort_stage := stable_sort\<rparr>) sample_query finance_store = Inr r \<and>
        visits r = [bob_row, alice_row]"
    by (simp add: finance_defs finance_sample_defs)
  show "\<exists>r. searchVisits (literal_engine\<lparr>sort_stage := reverse_sort\<rparr>) sample_query finance_store = Inr r \<and>
        visits r = [alice_row, bob_row]"
    by (simp add: finance_defs finance_sample_defs)
qed

text \<open>
  C7, amended. For a query sorted on a scalar path, the rows of a response are in the
  order of the requested key, in the requested direction: they are a slice of the filtered
  rows sorted by that key. Two calls with the same inputs, each with a sort of its own that
  meets the contract of the store, return rows with the same sequence of sort keys, and
  the same rows in the same order when the sort keys of the filtered rows are pairwise
  distinct. The order of rows with equal keys is the store's choice; no key on the id
  orders them.
\<close>

theorem result_sorted_by_requested_key:
  assumes key: "field (sort_field q) = Some key"
    and c1: "sort_contract srt1" and c2: "sort_contract srt2"
    and r1: "searchVisits (eng\<lparr>sort_stage := srt1\<rparr>) q s = Inr r1"
    and r2: "searchVisits (eng\<lparr>sort_stage := srt2\<rparr>) q s = Inr r2"
  shows "ordered (ascending q) (map (sort_key_of key) (visits r1)) \<and>
     map (sort_key_of key) (visits r2) = map (sort_key_of key) (visits r1) \<and>
     (\<exists>rows out. filtered_rows eng q s = Some rows \<and> sorts_by key (ascending q) rows out \<and>
        visits r1 = take (nat (limit_of q)) (drop (nat ((page_of q - 1) * limit_of q)) out) \<and>
        (distinct (map (sort_key_of key) rows) \<longrightarrow> visits r2 = visits r1))"
proof -
  obtain rows out1 where 1: "filtered_rows eng q s = Some rows"
    "srt1 (sort_field q) (ascending q) rows = Some out1"
    "visits r1 = take (nat (limit_of q)) (drop (nat ((page_of q - 1) * limit_of q)) out1)"
    using search_answer[OF r1] by auto
  obtain out2 where 2: "srt2 (sort_field q) (ascending q) rows = Some out2"
    "visits r2 = take (nat (limit_of q)) (drop (nat ((page_of q - 1) * limit_of q)) out2)"
    using search_answer[OF r2] 1(1) by auto
  have s1: "sorts_by key (ascending q) rows out1"
    using contract_sorts[OF c1 key, of "ascending q" rows] 1(2) by simp
  have s2: "sorts_by key (ascending q) rows out2"
    using contract_sorts[OF c2 key, of "ascending q" rows] 2(1) by simp
  have a: "ordered (ascending q) (map (sort_key_of key) (visits r1))"
    using s1 unfolding 1(3) by (intro ordered_sublist) (simp add: sorts_by_def)
  have "map (sort_key_of key) out2 = map (sort_key_of key) out1" by (rule sorts_by_keys[OF s2 s1])
  then have b: "map (sort_key_of key) (visits r2) = map (sort_key_of key) (visits r1)"
    by (simp add: 1(3) 2(2) take_map[symmetric] drop_map[symmetric])
  have c: "visits r2 = visits r1" if "distinct (map (sort_key_of key) rows)"
    using sorts_by_unique[OF s2 s1 that] by (simp add: 1(3) 2(2))
  show ?thesis using a b c 1(1,3) s1 by blast
qed

theorem result_sorted_by_requested_key_witness:
  "field (sort_field amount_query) = Some (\<lambda>r. BNumber (totalAmount (row_visit r))) \<and>
   sort_contract stable_sort \<and> sort_contract reverse_sort \<and>
   filtered_rows literal_engine amount_query finance_store = Some [bob_row, alice_row] \<and>
   distinct (map (sort_key_of (\<lambda>r. BNumber (totalAmount (row_visit r)))) [bob_row, alice_row]) \<and>
   (\<exists>r1 r2. searchVisits (literal_engine\<lparr>sort_stage := stable_sort\<rparr>) amount_query finance_store = Inr r1 \<and>
      searchVisits (literal_engine\<lparr>sort_stage := reverse_sort\<rparr>) amount_query finance_store = Inr r2 \<and>
      visits r1 = [alice_row, bob_row] \<and> visits r2 = visits r1 \<and>
      ordered (ascending amount_query)
        (map (sort_key_of (\<lambda>r. BNumber (totalAmount (row_visit r)))) (visits r1))) \<and>
   map (\<lambda>r. totalAmount (row_visit r)) [alice_row, bob_row] = [Fin 10, Fin 20]"
proof -
  define key where "key = (\<lambda>r::row. BNumber (totalAmount (row_visit r)))"
  have k: "field (sort_field amount_query) = Some key"
    by (simp add: key_def finance_sample_defs sort_field_def field_def projected_def)
  have rows: "filtered_rows literal_engine amount_query finance_store = Some [bob_row, alice_row]"
    by (rule sample_rows)
  have d: "distinct (map (sort_key_of key) [bob_row, alice_row])"
    by (simp add: key_def sort_key_of_def finance_sample_defs)
  obtain r1 where r1: "searchVisits (literal_engine\<lparr>sort_stage := stable_sort\<rparr>) amount_query
      finance_store = Inr r1" "visits r1 = [alice_row, bob_row]"
    by (simp add: finance_defs finance_sample_defs)
  obtain r2 where r2: "searchVisits (literal_engine\<lparr>sort_stage := reverse_sort\<rparr>) amount_query
      finance_store = Inr r2"
    by (simp add: finance_defs finance_sample_defs)
  note t = result_sorted_by_requested_key[OF k stable_sort_contract reverse_sort_contract r1(1) r2]
  have o: "ordered (ascending amount_query) (map (sort_key_of key) (visits r1))"
    using t by blast
  have e: "visits r2 = visits r1" using t rows d by auto
  have v: "map (\<lambda>r. totalAmount (row_visit r)) [alice_row, bob_row] = [Fin 10, Fin 20]"
    by (simp add: finance_sample_defs)
  have x: "\<exists>r1 r2. searchVisits (literal_engine\<lparr>sort_stage := stable_sort\<rparr>) amount_query finance_store = Inr r1 \<and>
      searchVisits (literal_engine\<lparr>sort_stage := reverse_sort\<rparr>) amount_query finance_store = Inr r2 \<and>
      visits r1 = [alice_row, bob_row] \<and> visits r2 = visits r1 \<and>
      ordered (ascending amount_query) (map (sort_key_of key) (visits r1))"
    using r1 r2 e o by blast
  show ?thesis using k stable_sort_contract reverse_sort_contract rows d x v unfolding key_def
    by (intro conjI)
qed

section \<open>Money is double arithmetic\<close>

lemma js_add_ints:
  assumes "0 \<le> a" "0 \<le> b" "a + b \<le> 2 ^ 53"
  shows "js_add (Fin (of_int a)) (Fin (of_int b)) = Fin (of_int (a + b))"
  using to_double_of_int[of "a + b"] assms by simp

lemma js_mul_ints:
  assumes "0 \<le> a" "0 \<le> b" "a * b \<le> 2 ^ 53"
  shows "js_mul (Fin (of_int a)) (Fin (of_int b)) = Fin (of_int (a * b))"
proof -
  have "0 \<le> a * b" using assms(1,2) by simp
  then show ?thesis using to_double_of_int[of "a * b"] assms(3) by simp
qed

lemma foldl_js_add_ints:
  assumes "list_all (\<lambda>p. 0 \<le> p) ps" "0 \<le> a" "a + sum_list ps \<le> 2 ^ 53"
  shows "foldl js_add (Fin (of_int a)) (map (\<lambda>p. Fin (of_int p)) ps) = Fin (of_int (a + sum_list ps))"
  using assms
proof (induction ps arbitrary: a)
  case Nil
  then show ?case by simp
next
  case (Cons p ps)
  have p: "0 \<le> p" and rest: "list_all (\<lambda>p. 0 \<le> p) ps" using Cons.prems(1) by simp_all
  have nonneg: "0 \<le> sum_list ps" using rest by (induction ps) simp_all
  have step: "js_add (Fin (of_int a)) (Fin (of_int p)) = Fin (of_int (a + p))"
    using Cons.prems p nonneg by (intro js_add_ints) simp_all
  have "foldl js_add (Fin (of_int (a + p))) (map (\<lambda>p. Fin (of_int p)) ps)
      = Fin (of_int (a + p + sum_list ps))"
    using Cons.prems p rest by (intro Cons.IH) simp_all
  then show ?case using step by (simp add: add.assoc)
qed

lemma foldl_exact_add_ints:
  "foldl exact_add (Fin (of_int a)) (map (\<lambda>p. Fin (of_int p)) ps) = Fin (of_int (a + sum_list ps))"
proof (induction ps arbitrary: a)
  case Nil
  then show ?case by simp
next
  case (Cons p ps)
  have "foldl exact_add (Fin (of_int (a + p))) (map (\<lambda>p. Fin (of_int p)) ps)
      = Fin (of_int (a + p + sum_list ps))"
    by (rule Cons.IH)
  then show ?case by (simp add: add.assoc)
qed

lemma is_integer_Fin: "is_integer x \<Longrightarrow> \<exists>n. x = Fin (of_int n)"
  by (cases x) (auto intro: exI[of _ "\<lfloor>_\<rfloor>"] simp add: eq_commute)

text \<open>The integer product of a treatment with integer unit price and quantity.\<close>

lemma whole_treatment:
  assumes "js_le (Fin 0) (unitPrice t)" "js_le (Fin 1) (quantity t)"
    and "is_integer (unitPrice t)" "is_integer (quantity t)"
  shows "\<exists>a b. 0 \<le> a \<and> 0 \<le> b \<and> unitPrice t = Fin (of_int a) \<and> quantity t = Fin (of_int b) \<and>
     exact_mul (unitPrice t) (quantity t) = Fin (of_int (a * b))"
proof -
  obtain a where a: "unitPrice t = Fin (of_int a)" using is_integer_Fin[OF assms(3)] by blast
  obtain b where b: "quantity t = Fin (of_int b)" using is_integer_Fin[OF assms(4)] by blast
  have "0 \<le> a" using assms(1) a by simp
  moreover have "0 \<le> b" using assms(2) b by simp
  ultimately show ?thesis using a b by auto
qed

lemma whole_ledger:
  assumes "list_all (\<lambda>t. js_le (Fin 0) (unitPrice t) \<and> js_le (Fin 1) (quantity t)) ts"
    and "list_all (\<lambda>t. is_integer (unitPrice t) \<and> is_integer (quantity t)) ts"
  shows "\<exists>ps. list_all (\<lambda>p. 0 \<le> p) ps \<and>
     map (\<lambda>t. exact_mul (unitPrice t) (quantity t)) ts = map (\<lambda>p. Fin (of_int p)) ps \<and>
     (sum_list ps \<le> 2 ^ 53 \<longrightarrow>
        map (\<lambda>t. js_mul (unitPrice t) (quantity t)) ts = map (\<lambda>p. Fin (of_int p)) ps)"
  using assms
proof (induction ts)
  case Nil
  then show ?case by simp
next
  case (Cons t ts)
  obtain ps where ps: "list_all (\<lambda>p. 0 \<le> p) ps"
    "map (\<lambda>t. exact_mul (unitPrice t) (quantity t)) ts = map (\<lambda>p. Fin (of_int p)) ps"
    "sum_list ps \<le> 2 ^ 53 \<longrightarrow>
        map (\<lambda>t. js_mul (unitPrice t) (quantity t)) ts = map (\<lambda>p. Fin (of_int p)) ps"
    using Cons by auto
  obtain a b where ab: "0 \<le> a" "0 \<le> b" "unitPrice t = Fin (of_int a)"
    "quantity t = Fin (of_int b)" "exact_mul (unitPrice t) (quantity t) = Fin (of_int (a * b))"
    using whole_treatment[of t] Cons.prems by auto
  have nonneg: "0 \<le> sum_list ps" using ps(1) by (induction ps) simp_all
  have ab0: "0 \<le> a * b" using ab(1,2) by simp
  have "list_all (\<lambda>p. 0 \<le> p) (a * b # ps)" using ps(1) ab0 by simp
  moreover have "map (\<lambda>t. exact_mul (unitPrice t) (quantity t)) (t # ts)
      = map (\<lambda>p. Fin (of_int p)) (a * b # ps)"
    using ps(2) ab(5) by simp
  moreover have "map (\<lambda>t. js_mul (unitPrice t) (quantity t)) (t # ts)
      = map (\<lambda>p. Fin (of_int p)) (a * b # ps)" if "sum_list (a * b # ps) \<le> 2 ^ 53"
  proof -
    have "a * b \<le> 2 ^ 53" "sum_list ps \<le> 2 ^ 53" using that nonneg ab0 by simp_all
    then show ?thesis using ps(3) js_mul_ints[OF ab(1,2)] ab(3,4) by simp
  qed
  ultimately show ?case by blast
qed

lemma exact_after_save:
  assumes val: "validate_visit (doc d)"
    and tot: "''treatments'' \<in> modifiedPaths d \<or> totalAmount (doc d) = reduce_total (treatments (doc d))"
    and whole: "whole_units (doc (pre_save now d))"
  shows "exact_money (doc (pre_save now d))"
proof -
  define ts where "ts = treatments (doc d)"
  define ts' where "ts' = treatments (doc (pre_save now d))"
  have ts': "ts' = map treatment_pre_save ts" by (simp add: ts'_def ts_def treatments_pre_save)
  have v: "list_all (\<lambda>t. js_le (Fin 0) (unitPrice t) \<and> js_le (Fin 1) (quantity t)) ts"
    using val by (auto simp add: validate_visit_def validate_treatment_def ts_def list_all_iff)
  have v': "list_all (\<lambda>t. js_le (Fin 0) (unitPrice t) \<and> js_le (Fin 1) (quantity t)) ts'"
    using v by (simp add: ts' list_all_iff treatment_pre_save_def)
  have w: "list_all (\<lambda>t. is_integer (unitPrice t) \<and> is_integer (quantity t)) ts'"
    and bound: "js_le (exact_sum (map (\<lambda>t. exact_mul (unitPrice t) (quantity t)) ts')) (Fin (2 ^ 53))"
    using whole by (simp_all add: whole_units_def ts'_def)
  obtain ps where ps: "list_all (\<lambda>p. 0 \<le> p) ps"
    "map (\<lambda>t. exact_mul (unitPrice t) (quantity t)) ts' = map (\<lambda>p. Fin (of_int p)) ps"
    "sum_list ps \<le> 2 ^ 53 \<longrightarrow>
        map (\<lambda>t. js_mul (unitPrice t) (quantity t)) ts' = map (\<lambda>p. Fin (of_int p)) ps"
    using whole_ledger[OF v' w] by blast
  have "exact_sum (map (\<lambda>p. Fin (of_int p)) ps) = Fin (of_int (sum_list ps))"
    using foldl_exact_add_ints[of 0 ps] by (simp add: exact_sum_def)
  then have "rat_of_int (sum_list ps) \<le> 2 ^ 53" using bound ps(2) by simp
  then have "rat_of_int (sum_list ps) \<le> of_int (2 ^ 53)" by simp
  then have sum: "sum_list ps \<le> 2 ^ 53" by (simp only: of_int_le_iff)
  have prices: "map totalPrice ts' = map (\<lambda>t. js_mul (unitPrice t) (quantity t)) ts'"
    by (simp add: ts' treatment_pre_save_def)
  have jm: "map (\<lambda>t. js_mul (unitPrice t) (quantity t)) ts' = map (\<lambda>p. Fin (of_int p)) ps"
    using ps(3) sum by blast
  have prices_ps: "map totalPrice ts' = map (\<lambda>p. Fin (of_int p)) ps"
    using prices jm by (rule trans)
  have each: "list_all (\<lambda>t. totalPrice t = exact_mul (unitPrice t) (quantity t)) ts'"
  proof -
    have "map totalPrice ts' = map (\<lambda>t. exact_mul (unitPrice t) (quantity t)) ts'"
      using prices_ps ps(2) by simp
    then show ?thesis by (simp add: list_all_iff)
  qed
  have noNaN: "list_all (\<lambda>t. totalPrice t \<noteq> NaN) ts'"
  proof -
    have "list_all (\<lambda>x. x \<noteq> NaN) (map totalPrice ts')"
      unfolding prices_ps by (simp add: list_all_iff)
    then show ?thesis by (simp add: list_all_iff)
  qed
  have "totalAmount (doc (pre_save now d)) = reduce_total ts'"
    using totalAmount_pre_save[OF tot, of now] by (simp add: ts'_def)
  also have "\<dots> = js_sum (map totalPrice ts')" using noNaN by (rule reduce_total_js_sum)
  also have "\<dots> = Fin (of_int (sum_list ps))"
    using foldl_js_add_ints[of ps 0] ps(1) sum by (simp add: js_sum_def prices_ps)
  also have "\<dots> = exact_sum (map totalPrice ts')"
    using foldl_exact_add_ints[of 0 ps] by (simp add: exact_sum_def prices_ps)
  finally have "totalAmount (doc (pre_save now d)) = exact_sum (map totalPrice ts')" .
  then show ?thesis using each by (simp add: exact_money_def ts'_def)
qed

lemma ledger_mutation_saves:
  assumes "addTreatment now newId vid doctorId body s = (Inr v', s') \<or>
     updateTreatment now vid tid doctorId body s = (Inr v', s') \<or>
     deleteTreatment now vid tid doctorId s = (Inr v', s')"
  shows "\<exists>d. save now (calculateTotalAmount d) s = (Inr v', s') \<and> \<not> isNew d"
proof (cases "find (\<lambda>v. visit_id v = vid \<and> doctor v = doctorId) (Visit s)")
  case None
  then show ?thesis using assms
    by (simp add: addTreatment_def updateTreatment_def deleteTreatment_def)
next
  case (Some v)
  show ?thesis
  proof (cases "status v = Completed \<or> status v = Cancelled")
    case True
    then show ?thesis using assms Some
      by (simp add: addTreatment_def updateTreatment_def deleteTreatment_def)
  next
    case False
    from assms show ?thesis
    proof (elim disjE)
      assume "addTreatment now newId vid doctorId body s = (Inr v', s')"
      then have "\<exists>t. save now (calculateTotalAmount (push t (load v))) s = (Inr v', s')"
        using Some False unfolding addTreatment_def Let_def
        by (simp only: option.case if_False) (rule exI)
      then obtain t where "save now (calculateTotalAmount (push t (load v))) s = (Inr v', s')"
        by blast
      moreover have "\<not> isNew (push t (load v))" by simp
      ultimately show ?thesis by blast
    next
      assume u: "updateTreatment now vid tid doctorId body s = (Inr v', s')"
      show ?thesis
      proof (cases "find (\<lambda>t. treatment_id t = tid) (treatments v)")
        case None
        then show ?thesis using u Some False by (simp add: updateTreatment_def)
      next
        case (Some t)
        have "\<exists>f. save now (calculateTotalAmount (assign ''treatments'' f (load v))) s = (Inr v', s')"
          using u Some \<open>find _ (Visit s) = Some v\<close> False unfolding updateTreatment_def Let_def
          by (simp only: option.case if_False) (rule exI)
        then obtain f where
          "save now (calculateTotalAmount (assign ''treatments'' f (load v))) s = (Inr v', s')"
          by blast
        moreover have "\<not> isNew (assign ''treatments'' f (load v))" by simp
        ultimately show ?thesis by blast
      qed
    next
      assume "deleteTreatment now vid tid doctorId s = (Inr v', s')"
      then have "save now (calculateTotalAmount (pull tid (load v))) s = (Inr v', s')"
        using Some False by (simp add: deleteTreatment_def)
      moreover have "\<not> isNew (pull tid (load v))" by simp
      ultimately show ?thesis by blast
    qed
  qed
qed

text \<open>
  C8, as the specification states it, fails: the schemas hold money as \<open>Number\<close> and the
  controllers multiply and add doubles. Three units at a unit price of 0.1 (the double
  nearest to it) are stored with the total price and total amount
  0.3000000000000000444 (\<open>1351079888211149 / 2^52\<close>), the double product rounded to
  nearest, which is not three times the stored unit price.
\<close>

theorem money_not_exact_counterexample:
  "to_double (1 / 10) = Fin tenth \<and>
   addTreatment 5000 7 1 20 (sample_body (Fin tenth) (Fin 3)) (sample_store Scheduled)
     = (Inr sample_drift, \<lparr>Visit = [sample_drift], User = sample_users\<rparr>) \<and>
   \<not> exact_money sample_drift"
proof (intro conjI)
  show "to_double (1 / 10) = Fin tenth" by (rule to_double_tenth)
  show "addTreatment 5000 7 1 20 (sample_body (Fin tenth) (Fin 3)) (sample_store Scheduled)
     = (Inr sample_drift, \<lparr>Visit = [sample_drift], User = sample_users\<rparr>)"
    by (simp add: handler_defs sample_defs sample_drift_def js_mul_tenth_3 js_add_0_drift
        del: js_mul.simps js_add.simps)
  show "\<not> exact_money sample_drift"
    by (simp add: exact_money_def sample_drift_def sample_defs tenth_def)
qed

text \<open>
  C8, amended. After every successful addTreatment, updateTreatment and deleteTreatment,
  whenever every unit price and quantity of the visit returned is a whole number and the
  exact total of the visit is at most \<open>2^53\<close>, each total price is the exact product of
  unit price and quantity and the total amount is the exact sum of the total prices
  (product and sum on the rationals): money held in whole minor units does not drift,
  whatever the requests before.
\<close>

theorem money_exact_on_whole_units:
  "(addTreatment now newId vid doctorId body s = (Inr v', s') \<and> whole_units v' \<longrightarrow> exact_money v') \<and>
   (updateTreatment now vid tid doctorId body s = (Inr v', s') \<and> whole_units v' \<longrightarrow> exact_money v') \<and>
   (deleteTreatment now vid tid doctorId s = (Inr v', s') \<and> whole_units v' \<longrightarrow> exact_money v')"
proof -
  have main: "exact_money v'"
    if h: "addTreatment now newId vid doctorId body s = (Inr v', s') \<or>
       updateTreatment now vid tid doctorId body s = (Inr v', s') \<or>
       deleteTreatment now vid tid doctorId s = (Inr v', s')"
      and w: "whole_units v'"
  proof -
    obtain d where d: "save now (calculateTotalAmount d) s = (Inr v', s')" "\<not> isNew d"
      using ledger_mutation_saves[OF h] by blast
    have "\<not> isNew (calculateTotalAmount d)" using d(2) by simp
    then have val: "validate_visit (doc (calculateTotalAmount d))"
      and v': "v' = doc (pre_save now (calculateTotalAmount d))"
      using save_loaded[OF d(1)] by simp_all
    have tot: "''treatments'' \<in> modifiedPaths (calculateTotalAmount d) \<or>
        totalAmount (doc (calculateTotalAmount d))
          = reduce_total (treatments (doc (calculateTotalAmount d)))"
      by (simp add: doc_calculateTotalAmount)
    show ?thesis using exact_after_save[OF val tot, of now] w by (simp add: v')
  qed
  show ?thesis using main by blast
qed

theorem money_exact_on_whole_units_witness:
  "addTreatment 5000 7 1 20 (sample_body (Fin 50) (Fin 2)) (sample_store Scheduled)
      = (Inr sample_billed, billed_store) \<and>
   whole_units sample_billed \<and> exact_money sample_billed \<and>
   updateTreatment 6000 1 7 20 (sample_body (Fin 25) (Fin 3)) billed_store
      = (Inr sample_repriced, \<lparr>Visit = [sample_repriced], User = sample_users\<rparr>) \<and>
   whole_units sample_repriced \<and> exact_money sample_repriced \<and>
   deleteTreatment 7000 1 7 20 billed_store
      = (Inr sample_emptied, \<lparr>Visit = [sample_emptied], User = sample_users\<rparr>) \<and>
   whole_units sample_emptied \<and> exact_money sample_emptied"
proof -
  have w: "whole_units sample_billed" "whole_units sample_repriced" "whole_units sample_emptied"
    by (simp_all add: whole_units_def exact_sum_def sample_defs)
  have 1: "exact_money sample_billed"
    using money_exact_on_whole_units[where now = 5000 and newId = 7 and vid = 1 and doctorId = 20
        and body = "sample_body (Fin 50) (Fin 2)" and s = "sample_store Scheduled"
        and v' = sample_billed and s' = billed_store] sample_add w(1)
    by blast
  have 2: "exact_money sample_repriced"
    using money_exact_on_whole_units[where now = 6000 and tid = 7 and vid = 1 and doctorId = 20
        and body = "sample_body (Fin 25) (Fin 3)" and s = billed_store
        and v' = sample_repriced and s' = "\<lparr>Visit = [sample_repriced], User = sample_users\<rparr>"]
      sample_update w(2)
    by blast
  have 3: "exact_money sample_emptied"
    using money_exact_on_whole_units[where now = 7000 and tid = 7 and vid = 1 and doctorId = 20
        and s = billed_store
        and v' = sample_emptied and s' = "\<lparr>Visit = [sample_emptied], User = sample_users\<rparr>"]
      sample_delete w(3)
    by blast
  show ?thesis using sample_add sample_update sample_delete w 1 2 3 by (intro conjI)
qed

end
